theory Spec2Isabelle
  imports Complex_Main "HOL-Library.AList" "HOL-Library.Char_ord" "HOL-Library.List_Lexorder"
begin

section \<open>Duration limit of a capture (\<open>LiveRecorder.run_record\<close>, lines 473-487 and 500)\<close>

text \<open>
  \<open>duration\<close> comes from the configuration as an integer or \<open>None\<close>, \<open>duration_unit\<close> as a
  string or \<open>None\<close>.  The source tests both with Python truthiness (\<open>if duration and
  duration_unit\<close>): \<open>None\<close>, \<open>0\<close> and the empty string count as not set, which is also what
  the source logs in the else branch.
\<close>

definition truthy_int :: "int option \<Rightarrow> bool" where
  "truthy_int d = (case d of None \<Rightarrow> False | Some n \<Rightarrow> n \<noteq> 0)"

definition truthy_str :: "string option \<Rightarrow> bool" where
  "truthy_str u = (case u of None \<Rightarrow> False | Some s \<Rightarrow> s \<noteq> [])"

text \<open>The value of the local variable \<open>timeout\<close> after lines 473-487.\<close>

definition record_timeout :: "int option \<Rightarrow> string option \<Rightarrow> int option" where
  "record_timeout duration duration_unit =
     (if truthy_int duration \<and> truthy_str duration_unit then
        (if duration_unit = Some ''seconds'' then Some (the duration)
         else if duration_unit = Some ''minutes'' then Some (the duration * 60)
         else if duration_unit = Some ''hours'' then Some (the duration * 3600)
         else None)
      else None)"

text \<open>Line 500, \<open>if timeout:\<close> decides whether a \<open>threading.Timer\<close> is created and started.\<close>

definition timer_armed :: "int option \<Rightarrow> bool" where
  "timer_armed timeout = truthy_int timeout"

section \<open>Request signature (\<open>Kwai.create_signature\<close>, lines 766-793)\<close>

text \<open>
  Strings are byte lists.  A Python dict is an association list in insertion order whose
  assignment \<open>d[k] = v\<close> is \<open>AList.update\<close>: an existing key keeps its position and takes
  the new value, a new key goes to the end.  \<open>hashlib.md5(...).hexdigest()\<close>,
  \<open>urllib.parse.unquote\<close> and \<open>str\<close> belong to the Python library, not to the repository:
  they are parameters of the model.
\<close>

text \<open>\<open>s.split(c)\<close> for a one-character separator: the empty string gives one empty field.\<close>

fun split_on :: "char \<Rightarrow> string \<Rightarrow> string list" where
  "split_on c [] = [[]]"
| "split_on c (x # xs) =
     (if x = c then [] # split_on c xs
      else (case split_on c xs of [] \<Rightarrow> [[x]] | f # fs \<Rightarrow> (x # f) # fs))"

text \<open>The loop body of lines 769-774: \<open>pair.split('=', 1)\<close> when the pair has an \<open>=\<close>, the pair with an
  empty value otherwise.\<close>

definition split_pair :: "string \<Rightarrow> string \<times> string" where
  "split_pair pair =
     (if CHR ''='' \<in> set pair
      then (takeWhile (\<lambda>c. c \<noteq> CHR ''='') pair, tl (dropWhile (\<lambda>c. c \<noteq> CHR ''='') pair))
      else (pair, []))"

type_synonym 'v dict = "(string \<times> 'v) list"

definition parse_query :: "string \<Rightarrow> string dict" where
  "parse_query query_str =
     fold (\<lambda>pair query_obj. AList.update (fst (split_pair pair)) (snd (split_pair pair)) query_obj)
       (split_on CHR ''&'' query_str) []"

text \<open>Line 777: \<open>{k: str(v) for k, v in post_dict.items()}\<close> and the merge \<open>{**a, **b}\<close>.\<close>

definition str_values :: "('v \<Rightarrow> string) \<Rightarrow> 'v dict \<Rightarrow> string dict" where
  "str_values str post_dict = fold (\<lambda>(k, v) d. AList.update k (str v) d) post_dict []"

definition merge_dicts :: "'v dict \<Rightarrow> 'v dict \<Rightarrow> 'v dict" where
  "merge_dicts a b = fold (\<lambda>(k, v) d. AList.update k v d) b a"

definition excluded_keys :: "string list" where
  "excluded_keys = [''sig'', ''__NS_sig3'', ''__NStokensig'']"

definition secret :: string where
  "secret = ''382700b563f4''"

text \<open>Lines 783-787, the loop over the sorted items.\<close>

definition url_string :: "(string \<Rightarrow> string) \<Rightarrow> string dict \<Rightarrow> string" where
  "url_string unquote sorted_items =
     fold (\<lambda>(k, v) s. if k \<in> set excluded_keys then s else s @ k @ ''='' @ unquote v)
       sorted_items []"

definition create_signature ::
  "(string \<Rightarrow> string) \<Rightarrow> (string \<Rightarrow> string) \<Rightarrow> ('v \<Rightarrow> string) \<Rightarrow> string \<Rightarrow> 'v dict \<Rightarrow> string" where
  "create_signature md5_hexdigest unquote str query_str post_dict =
     (let query_obj = parse_query query_str;
          map_object = merge_dicts query_obj (str_values str post_dict);
          sorted_items = sort_key fst map_object
      in md5_hexdigest (url_string unquote sorted_items @ secret))"

text \<open>
  The signed string as the specification words it, on the merged parameter map: the keys in
  ascending order, without the three signature fields, each as \<open>key=value\<close> with the value
  percent-decoded, followed by the shared secret.
\<close>

definition canonical_string :: "(string \<Rightarrow> string) \<Rightarrow> (string \<rightharpoonup> string) \<Rightarrow> string" where
  "canonical_string unquote m =
     concat (map (\<lambda>k. k @ ''='' @ unquote (the (m k)))
       (filter (\<lambda>k. k \<notin> {''sig'', ''__NS_sig3'', ''__NStokensig''})
          (sorted_list_of_set (dom m)))) @ ''382700b563f4''"

section \<open>The monitor task (\<open>LiveRecorder._record_task\<close>, lines 298-355)\<close>

text \<open>
  The exceptions the handlers of the source tell apart.  \<open>asyncio.TimeoutError\<close>, \<open>KeyError\<close>
  and every other subclass of \<open>Exception\<close> are caught by \<open>except Exception\<close>; \<open>asyncio.CancelledError\<close>,
  \<open>KeyboardInterrupt\<close> and \<open>SystemExit\<close> derive from \<open>BaseException\<close> only.
\<close>

datatype py_exn = TimeoutError | KeyError | OtherException | CancelledError | KeyboardInterrupt
  | SystemExit

definition is_Exception :: "py_exn \<Rightarrow> bool" where
  "is_Exception e = (e \<noteq> CancelledError \<and> e \<noteq> KeyboardInterrupt \<and> e \<noteq> SystemExit)"

text \<open>
  What a task observes from outside, by the time (in seconds) at which it looks: the flag
  \<open>self.running\<close>, which another thread lowers in \<open>stop\<close>; how long the awaited
  \<open>wait_for(recorder.run(), timeout=300)\<close> takes and what it raises; what an
  \<open>await asyncio.sleep(1)\<close> of the wait loop, and the \<open>await asyncio.sleep(5)\<close> of the handler,
  raises when it starts at that time.  A sleep that raises nothing takes its nominal time.
\<close>

record task_env =
  running_at :: "real \<Rightarrow> bool"
  run_result :: "real \<Rightarrow> real \<times> py_exn option"
  wait_sleep_raises :: "real \<Rightarrow> py_exn option"
  backoff_sleep_raises :: "real \<Rightarrow> py_exn option"

text \<open>The calls of \<open>logger.error\<close> and \<open>logger.info\<close> (lines 329, 336, 332 and 348, 352).\<close>

datatype log_entry = RunTimeout | RunError py_exn | TaskCancelled | TaskError py_exn

text \<open>
  Lines 340-346, \<open>for i in range(recorder.interval)\<close>: the number of iterations left is the
  last argument.  The result is the time at which the loop is left and the exception that
  left it, if any.  The local flag \<open>task_running\<close> is an argument: the source only assigns it
  right before a \<open>break\<close>, so it is \<open>True\<close> wherever it is read.
\<close>

fun wait_loop :: "task_env \<Rightarrow> bool \<Rightarrow> real \<Rightarrow> nat \<Rightarrow> real \<times> py_exn option" where
  "wait_loop env task_running t 0 = (t, None)"
| "wait_loop env task_running t (Suc n) =
     (if \<not> running_at env t \<or> \<not> task_running then (t, None)
      else (case wait_sleep_raises env t of
              Some e \<Rightarrow> (t, Some e)
            | None \<Rightarrow> wait_loop env task_running (t + 1) n))"

text \<open>How one pass through the body of the \<open>while\<close> loop ends.\<close>

datatype step = Continue real "log_entry list" | Break real "log_entry list"
  | Propagate py_exn real "log_entry list"

text \<open>Lines 347-354, the handlers of the outer \<open>try\<close>.\<close>

definition task_handler :: "task_env \<Rightarrow> py_exn \<Rightarrow> real \<Rightarrow> log_entry list \<Rightarrow> step" where
  "task_handler env e t lg =
     (if e = CancelledError then Break t (lg @ [TaskCancelled])
      else if is_Exception e then
        (case backoff_sleep_raises env t of
           None \<Rightarrow> Continue (t + 5) (lg @ [TaskError e])
         | Some e' \<Rightarrow> Propagate e' t (lg @ [TaskError e]))
      else Propagate e t lg)"

text \<open>Lines 338-346 under the outer \<open>try\<close>: the wait of \<open>interval\<close> seconds.\<close>

definition cooldown :: "task_env \<Rightarrow> int \<Rightarrow> real \<Rightarrow> log_entry list \<Rightarrow> step" where
  "cooldown env interval t lg =
     (case wait_loop env True t (nat interval) of
        (t', None) \<Rightarrow> Continue t' lg
      | (t', Some e) \<Rightarrow> task_handler env e t' lg)"

text \<open>
  Lines 314-354: the awaited run with the handlers of the inner \<open>try\<close> (lines 328-336), then
  the wait.  An exception of the run that no inner handler catches reaches the outer ones.
\<close>

definition iteration :: "task_env \<Rightarrow> int \<Rightarrow> real \<Rightarrow> log_entry list \<Rightarrow> step" where
  "iteration env interval t lg =
     (case run_result env t of
        (d, None) \<Rightarrow> cooldown env interval (t + d) lg
      | (d, Some e) \<Rightarrow>
          if e = TimeoutError then cooldown env interval (t + d) (lg @ [RunTimeout])
          else if e = CancelledError then Break (t + d) (lg @ [TaskCancelled])
          else if is_Exception e then cooldown env interval (t + d) (lg @ [RunError e])
          else task_handler env e (t + d) lg)"

text \<open>
  Lines 313-355, the \<open>while self.running and task_running\<close> loop, which may go on forever:
  the third argument bounds the number of passes, and \<open>StillRunning\<close> is the loop not yet left.
\<close>

datatype task_result = Finished real "log_entry list" | Raised py_exn real "log_entry list"
  | StillRunning real "log_entry list"

fun record_task :: "task_env \<Rightarrow> int \<Rightarrow> nat \<Rightarrow> real \<Rightarrow> log_entry list \<Rightarrow> task_result" where
  "record_task env interval 0 t lg = StillRunning t lg"
| "record_task env interval (Suc n) t lg =
     (if running_at env t then
        (case iteration env interval t lg of
           Continue t' lg' \<Rightarrow> record_task env interval n t' lg'
         | Break t' lg' \<Rightarrow> Finished t' lg'
         | Propagate e t' lg' \<Rightarrow> Raised e t' lg')
      else Finished t lg)"


section \<open>The tasks of one event loop (lines 200-231)\<close>







section \<open>The shared state: registry, handles, timers, tasks, recorders\<close>

text \<open>
  The objects the source shares between threads live in stores indexed by references, since
  the registry, the local variables of a capture and \<open>stop\<close> reach the same handles.
  \<open>StreamIO\<close> and \<open>FileOutput\<close> are classes of streamlink, which is not part of the repository:
  a stream has the attribute \<open>closed\<close> of \<open>io.IOBase\<close>; an output has \<open>opened\<close>, and whether it
  also has an attribute \<open>closed\<close> (which line 546 reads with \<open>getattr(output, 'closed', True)\<close>)
  is left open: \<open>closed_attr\<close> is \<open>None\<close> for an object without it.  Whether a \<open>close()\<close> raises
  is a property of the handle.
\<close>

type_synonym url = string
type_synonym ref = nat

record stream_fd =
  fd_closed :: bool
  fd_close_raises :: bool

record file_output =
  opened :: bool
  closed_attr :: "bool option"
  out_close_raises :: bool

text \<open>A \<open>threading.Timer\<close>: not created, started with its timeout, gone off, or cancelled in time.\<close>

datatype timer_state = NoTimer | Armed int | Fired | Cancelled

text \<open>A row of the table \<open>users\<close> (\<open>config_manager.py\<close>, lines 24-33 and 212-221).\<close>

record user =
  user_id :: int
  user_platform :: string
  user_name :: string
  user_interval :: int
  user_duration :: "int option"
  user_duration_unit :: "string option"

text \<open>
  An \<open>asyncio\<close> task running \<open>_record_task\<close> for one user, and the event loop of a recorder.
  \<open>task_cancelled\<close> says that \<open>task.cancel()\<close> was called.
\<close>

record task =
  task_user :: user
  task_done :: bool
  task_cancelled :: bool

record event_loop =
  loop_running :: bool
  loop_stop_requested :: bool

text \<open>
  The dict given to \<open>LiveRecorder\<close>: the keys \<open>proxy\<close> and \<open>user\<close> may be missing (\<open>gui.py\<close>, lines
  1145-1148), which \<open>config['proxy']\<close> and \<open>config['user']\<close> answer with a \<open>KeyError\<close>.  Then the
  fields of a \<open>LiveRecorder\<close> that \<open>start\<close>, \<open>stop\<close> and \<open>add_user\<close> use; \<open>loop\<close> is \<open>None\<close> before
  the first \<open>start\<close>.
\<close>

record config =
  proxy :: "string option"
  users :: "user list option"

record live_recorder =
  config :: config
  running :: bool
  tasks :: "ref list"
  loop :: "event_loop option"

text \<open>The fields of the application object that its timeout callback touches (\<open>gui.py\<close>, lines 73-79).\<close>

record gui_state =
  gui_recorder :: "ref option"
  gui_recording :: bool
  user_recorders :: "(int \<times> ref) list"
  user_recording_status :: "(int \<times> bool) list"

text \<open>
  The warnings and errors the source logs: lines 225, 227, 234, 123, 186, 109 and 251, 288 and
  the like, 571.
\<close>

datatype event = PlatformNotFound string py_exn | CreateFailed string py_exn
  | StartFailed py_exn | AddUserFailed py_exn | AlreadyRunning | NotRunning
  | CloseFailed py_exn | RecordFailed py_exn

text \<open>
  What the libraries decide when a recorder is constructed (lines 114-115 and 214-216), which
  the source cannot tell: whether a global of the module that is not a recorder class has an
  attribute \<open>__name__\<close> (line 215 reads it), what calling it raises, both by the name of
  the global, and what \<open>LiveRecorder.__init__\<close> raises for a configuration and a user (\<open>logger.add\<close>, \<open>SimpleCookie\<close> and the \<open>httpx\<close> client of \<open>get_client\<close>,
  lines 62-67 and 375-395, which for instance refuses a proxy it cannot parse).  Constructors
  are taken to raise instances of \<open>Exception\<close>: a \<open>KeyError\<close> or another one.
\<close>

datatype ctor_error = CtorKeyError | CtorException

definition raised :: "ctor_error \<Rightarrow> py_exn" where
  "raised c = (case c of CtorKeyError \<Rightarrow> KeyError | CtorException \<Rightarrow> OtherException)"

record library =
  has_name :: "string \<Rightarrow> bool"
  call_raises :: "string \<Rightarrow> ctor_error option"
  init_raises :: "config \<Rightarrow> user \<Rightarrow> ctor_error option"

text \<open>
  The module-level dict \<open>recording\<close> (line 41), an insertion-ordered dict, and the stores.
  The last field is not state: it is the behaviour of the libraries, the same throughout.
\<close>

record world =
  recording :: "(url \<times> ref \<times> ref) list"
  fds :: "ref \<Rightarrow> stream_fd"
  outs :: "ref \<Rightarrow> file_output"
  timers :: "ref \<Rightarrow> timer_state"
  task_store :: "task list"
  recorders :: "ref \<Rightarrow> live_recorder"
  gui :: gui_state
  events :: "event list"
  lib :: library

definition log_event :: "event \<Rightarrow> world \<Rightarrow> world" where
  "log_event e w = w\<lparr>events := events w @ [e]\<rparr>"

text \<open>
  \<open>stream_fd.close()\<close> and \<open>output.close()\<close>; the second leaves the output not opened, as the
  \<open>close\<close> of streamlink's \<open>Output\<close> does.  The \<open>try_\<close> forms are the calls wrapped in
  \<open>try ... except Exception\<close> with a warning.
\<close>

definition close_fd :: "ref \<Rightarrow> world \<Rightarrow> py_exn + world" where
  "close_fd f w =
     (if fd_close_raises (fds w f) then Inl OtherException
      else Inr (w\<lparr>fds := (fds w)(f := (fds w f)\<lparr>fd_closed := True\<rparr>)\<rparr>))"

definition close_output :: "ref \<Rightarrow> world \<Rightarrow> py_exn + world" where
  "close_output out w =
     (if out_close_raises (outs w out) then Inl OtherException
      else Inr (w\<lparr>outs := (outs w)(out := (outs w out)
             \<lparr>opened := False, closed_attr := map_option (\<lambda>_. True) (closed_attr (outs w out))\<rparr>)\<rparr>))"

definition try_close_fd :: "ref \<Rightarrow> world \<Rightarrow> world" where
  "try_close_fd f w = (case close_fd f w of Inl e \<Rightarrow> log_event (CloseFailed e) w | Inr w' \<Rightarrow> w')"

definition try_close_output :: "ref \<Rightarrow> world \<Rightarrow> world" where
  "try_close_output out w =
     (case close_output out w of Inl e \<Rightarrow> log_event (CloseFailed e) w | Inr w' \<Rightarrow> w')"

text \<open>\<open>url in recording\<close>, \<open>recording[url] = (stream_fd, output)\<close> and \<open>del recording[url]\<close>.\<close>

definition registered :: "url \<Rightarrow> world \<Rightarrow> bool" where
  "registered u w = (map_of (recording w) u \<noteq> None)"

definition register :: "url \<Rightarrow> ref \<times> ref \<Rightarrow> world \<Rightarrow> world" where
  "register u h w = w\<lparr>recording := AList.update u h (recording w)\<rparr>"

definition unregister :: "url \<Rightarrow> world \<Rightarrow> world" where
  "unregister u w = w\<lparr>recording := AList.delete u (recording w)\<rparr>"

text \<open>
  Lines 539-563 of \<open>run_record\<close>, the \<open>finally\<close> of its inner \<open>try\<close>, with which a capture
  cleans up after itself: it closes the output if it was opened and its attribute \<open>closed\<close>
  reads \<open>False\<close>, closes the stream if it is not closed, and deletes the entry of the URL.
\<close>

definition release :: "bool \<Rightarrow> ref \<Rightarrow> ref \<Rightarrow> url \<Rightarrow> world \<Rightarrow> world" where
  "release output_opened stream_fd out u w =
     (let w1 = (if output_opened \<and>
                   \<not> (case closed_attr (outs w out) of None \<Rightarrow> True | Some c \<Rightarrow> c)
                then try_close_output out w else w);
          w2 = (if \<not> fd_closed (fds w1 stream_fd) then try_close_fd stream_fd w1 else w1)
      in if registered u w2 then unregister u w2 else w2)"

section \<open>Stopping a recorder (\<open>LiveRecorder.stop\<close>, lines 245-296)\<close>

text \<open>Lines 262-266, the closure \<open>cancel_tasks\<close> handed to the event loop.\<close>

definition cancel_task :: "ref \<Rightarrow> task list \<Rightarrow> task list" where
  "cancel_task i ts =
     (if i < length ts \<and> \<not> task_done (ts ! i) then ts[i := (ts ! i)\<lparr>task_cancelled := True\<rparr>]
      else ts)"

definition cancel_tasks :: "ref list \<Rightarrow> task list \<Rightarrow> task list" where
  "cancel_tasks is ts = fold cancel_task is ts"

text \<open>
  \<open>stop\<close> runs on the caller's thread while the event loop and the capture threads go on.
  What they get done before \<open>stop\<close> returns is the schedule: whether the event loop runs
  \<open>cancel_tasks\<close> during the \<open>time.sleep(0.2)\<close> of line 272, before line 275 empties
  \<open>self.tasks\<close> (the closure reads \<open>self.tasks\<close> when it runs, so a loop that comes later finds
  the list empty); and which captures, once \<open>stop\<close> has closed their stream and their
  \<open>StreamRunner.run\<close> has returned for that, get through their own cleanup (\<open>release\<close>) before
  \<open>stop\<close> returns.
\<close>

record schedule =
  cancel_in_time :: bool
  finishing :: "url \<Rightarrow> bool"

text \<open>
  Lines 282-288, the body of the loop over \<open>recording.copy().values()\<close>: when closing the
  stream raises, the output of that entry is not closed.  \<open>stop_entry\<close> is the same with the
  turn of the capture thread after it.
\<close>

definition close_entry :: "url \<times> ref \<times> ref \<Rightarrow> world \<Rightarrow> world" where
  "close_entry entry w =
     (case close_fd (fst (snd entry)) w of
        Inl e \<Rightarrow> log_event (CloseFailed e) w
      | Inr w1 \<Rightarrow>
          (case close_output (snd (snd entry)) w1 of
             Inl e \<Rightarrow> log_event (CloseFailed e) w1
           | Inr w2 \<Rightarrow> w2))"

definition stop_entry :: "schedule \<Rightarrow> url \<times> ref \<times> ref \<Rightarrow> world \<Rightarrow> world" where
  "stop_entry sch entry w =
     (let w1 = close_entry entry w
      in if finishing sch (fst entry)
         then release True (fst (snd entry)) (snd (snd entry)) (fst entry) w1
         else w1)"

text \<open>\<open>hasattr(self, 'loop') and self.loop and self.loop.is_running()\<close>.\<close>

definition loop_is_running :: "live_recorder \<Rightarrow> bool" where
  "loop_is_running r = (case loop r of None \<Rightarrow> False | Some l \<Rightarrow> loop_running l)"

definition set_recorder :: "ref \<Rightarrow> live_recorder \<Rightarrow> world \<Rightarrow> world" where
  "set_recorder self r w = w\<lparr>recorders := (recorders w)(self := r)\<rparr>"

text \<open>
  \<open>stop\<close>.  The loop of lines 282-288 runs over a copy of the registry taken when it starts.
  No line of \<open>stop\<close> deletes from \<open>recording\<close>: entries go only through \<open>release\<close>.
\<close>

definition stop :: "schedule \<Rightarrow> ref \<Rightarrow> world \<Rightarrow> world" where
  "stop sch self w =
     (let r = recorders w self in
      if \<not> running r then log_event NotRunning w
      else
        let w1 = set_recorder self (r\<lparr>running := False\<rparr>) w;
            w2 = (if tasks r \<noteq> [] then
                    (if loop_is_running r then
                       (set_recorder self (r\<lparr>running := False, tasks := []\<rparr>) w1)
                         \<lparr>task_store :=
                            (if cancel_in_time sch then cancel_tasks (tasks r) (task_store w1)
                             else task_store w1)\<rparr>
                     else set_recorder self (r\<lparr>running := False, tasks := []\<rparr>) w1)
                  else w1);
            w3 = fold (stop_entry sch) (recording w2) w2
        in if loop_is_running r
           then set_recorder self
                  ((recorders w3 self)\<lparr>loop := map_option (\<lambda>l. l\<lparr>loop_stop_requested := True\<rparr>)
                      (loop (recorders w3 self))\<rparr>) w3
           else w3)"

section \<open>The duration timer and its callbacks\<close>

text \<open>
  \<open>gui_timeout_callback\<close> of \<open>gui.py\<close>, lines 851-895 (and again lines 956-1000): it stops the
  recorder held in \<open>self.recorder\<close>, drops it, and marks the user as not recording.  The updates
  of buttons and table are left out.
\<close>

definition gui_timeout_callback :: "schedule \<Rightarrow> int \<Rightarrow> world \<Rightarrow> world" where
  "gui_timeout_callback sch recorder_user_id w =
     (let w1 = (case gui_recorder (gui w) of
                  None \<Rightarrow> w
                | Some r \<Rightarrow>
                    (let w' = stop sch r w
                     in w'\<lparr>gui := (gui w')\<lparr>gui_recorder := None, gui_recording := False\<rparr>\<rparr>))
      in if map_of (user_recording_status (gui w1)) recorder_user_id \<noteq> None
         then w1\<lparr>gui := (gui w1)\<lparr>user_recording_status :=
                 AList.update recorder_user_id False (user_recording_status (gui w1))\<rparr>\<rparr>
         else w1)"

text \<open>\<open>timeout_callback\<close> of \<open>Kwai.run\<close>, lines 916-924: it ignores its argument and passes \<open>self.id\<close>.\<close>

definition kwai_timeout_callback :: "(int \<Rightarrow> world \<Rightarrow> world) option \<Rightarrow> int \<Rightarrow> int \<Rightarrow> world \<Rightarrow> world" where
  "kwai_timeout_callback gui_cb self_id arg w =
     (case gui_cb of None \<Rightarrow> w | Some cb \<Rightarrow> cb self_id w)"

text \<open>
  \<open>timeout_handler\<close> of \<open>run_record\<close>, lines 505-520: closes the stream of this capture, under a
  bare \<open>except\<close>, then calls the callback when there is one and the recorder has an \<open>id\<close>.
\<close>

definition timeout_handler ::
  "int option \<Rightarrow> ref \<Rightarrow> (int \<Rightarrow> world \<Rightarrow> world) option \<Rightarrow> world \<Rightarrow> world" where
  "timeout_handler self_id stream_fd timeout_callback w =
     (let w1 = (if \<not> fd_closed (fds w stream_fd)
                then (case close_fd stream_fd w of Inl e \<Rightarrow> w | Inr w' \<Rightarrow> w')
                else w)
      in case timeout_callback of
           None \<Rightarrow> w1
         | Some cb \<Rightarrow> (case self_id of None \<Rightarrow> w1 | Some i \<Rightarrow> cb i w1))"

section \<open>A capture (\<open>LiveRecorder.run_record\<close>, lines 436-592, and \<open>stream_writer\<close>, lines 698-725)\<close>

text \<open>
  What the surroundings decide during one capture: whether the stream object is truthy, what
  \<open>mkdir\<close>, \<open>open_stream\<close> and \<open>output.open()\<close> raise, which references the new stream, output
  and timer get and how the new handles behave, and what happens while
  \<open>StreamRunner.run\<close> blocks: first \<open>others\<close>, the work of other threads on the shared state,
  then the timer going off if it is armed and \<open>timer_fires\<close>, then the end of the run, by
  return or by the exception \<open>run_raises\<close>.
\<close>

record capture_env =
  stream_ok :: bool
  mkdir_raises :: "py_exn option"
  open_stream_result :: "py_exn + ref"
  new_fd_close_raises :: bool
  new_output :: ref
  new_output_closed_attr :: "bool option"
  new_output_close_raises :: bool
  output_open_raises :: "py_exn option"
  new_timer :: ref
  others :: "world \<Rightarrow> world"
  timer_fires :: bool
  run_raises :: "py_exn option"

text \<open>The new objects of lines 462, 466 and 492, and the timer of lines 523-530.\<close>

definition open_stream :: "capture_env \<Rightarrow> ref \<Rightarrow> world \<Rightarrow> world" where
  "open_stream env f w =
     w\<lparr>fds := (fds w)(f := \<lparr>fd_closed = False, fd_close_raises = new_fd_close_raises env\<rparr>)\<rparr>"

definition FileOutput :: "capture_env \<Rightarrow> world \<Rightarrow> world" where
  "FileOutput env w =
     w\<lparr>outs := (outs w)(new_output env := \<lparr>opened = False,
         closed_attr = new_output_closed_attr env,
         out_close_raises = new_output_close_raises env\<rparr>)\<rparr>"

definition output_open :: "ref \<Rightarrow> world \<Rightarrow> world" where
  "output_open out w = w\<lparr>outs := (outs w)(out := (outs w out)\<lparr>opened := True\<rparr>)\<rparr>"

definition timer_start :: "ref \<Rightarrow> int \<Rightarrow> world \<Rightarrow> world" where
  "timer_start t timeout w = w\<lparr>timers := (timers w)(t := Armed timeout)\<rparr>"

definition timer_fire :: "ref \<Rightarrow> world \<Rightarrow> world" where
  "timer_fire t w = w\<lparr>timers := (timers w)(t := Fired)\<rparr>"

definition timer_cancel :: "ref \<Rightarrow> world \<Rightarrow> world" where
  "timer_cancel t w =
     (case timers w t of Armed n \<Rightarrow> w\<lparr>timers := (timers w)(t := Cancelled)\<rparr> | _ \<Rightarrow> w)"

text \<open>
  \<open>StreamRunner(stream_fd, output).run(prebuffer)\<close> (lines 527, 533 and 708), a method of
  streamlink: while it copies the stream the other threads and the timer thread do their
  work; it ends by closing the stream in its own \<open>finally\<close>, on return as on an exception,
  and an exception of that \<open>close\<close> is the one that leaves it.
\<close>

definition runner_run ::
  "capture_env \<Rightarrow> ref \<Rightarrow> (world \<Rightarrow> world) \<Rightarrow> world \<Rightarrow> world \<times> py_exn option" where
  "runner_run env stream_fd timer_thread w =
     (let w1 = timer_thread (others env w)
      in case close_fd stream_fd w1 of
           Inl e \<Rightarrow> (w1, Some e)
         | Inr w2 \<Rightarrow> (w2, run_raises env))"

text \<open>
  Lines 535-538: the inner \<open>try\<close> catches \<open>KeyboardInterrupt\<close> and \<open>Exception\<close>; anything else
  leaves \<open>run_record\<close> after the \<open>finally\<close>, since line 570 catches \<open>Exception\<close> only.
\<close>

definition caught_inside :: "py_exn option \<Rightarrow> py_exn option" where
  "caught_inside r =
     (case r of None \<Rightarrow> None
      | Some e \<Rightarrow> if e = KeyboardInterrupt \<or> is_Exception e then None else Some e)"

text \<open>
  Lines 570-592, the handler of the outer \<open>try\<close>, reached when \<open>mkdir\<close> or \<open>open_stream\<close> raises:
  it closes and deletes whatever is registered under the URL.
\<close>

definition cleanup_on_failure :: "py_exn \<Rightarrow> url \<Rightarrow> world \<Rightarrow> world" where
  "cleanup_on_failure e u w =
     (let w0 = log_event (RecordFailed e) w
      in case map_of (recording w0) u of
           None \<Rightarrow> w0
         | Some h \<Rightarrow> unregister u (try_close_output (snd h) (try_close_fd (fst h) w0)))"

text \<open>
  Lines 457-494: the state of a capture when stream and output are opened and the pair is
  registered under the URL; and lines 500-524 after it: the state in which
  \<open>stream_runner.run(prebuffer)\<close> is called, with the timer of the duration limit started when
  there is one.
\<close>

definition capturing :: "url \<Rightarrow> capture_env \<Rightarrow> world \<Rightarrow> world" where
  "capturing u env w =
     (case open_stream_result env of
        Inl e \<Rightarrow> w
      | Inr stream_fd \<Rightarrow>
          output_open (new_output env)
            (register u (stream_fd, new_output env) (FileOutput env (open_stream env stream_fd w))))"

definition at_run :: "int option \<Rightarrow> string option \<Rightarrow> url \<Rightarrow> capture_env \<Rightarrow> world \<Rightarrow> world" where
  "at_run duration duration_unit u env w =
     (let timeout = record_timeout duration duration_unit
      in if timer_armed timeout
         then timer_start (new_timer env) (the timeout) (capturing u env w)
         else capturing u env w)"

text \<open>
  \<open>run_record\<close>.  The result is the state and the exception that leaves the call, if any.
  \<open>self_id\<close> is \<open>None\<close> for a recorder constructed without a user: it has neither \<open>id\<close> nor
  \<open>format\<close>, and line 438 raises an \<open>AttributeError\<close> before the \<open>try\<close>.
\<close>

definition run_record ::
  "int option \<Rightarrow> url \<Rightarrow> int option \<Rightarrow> string option \<Rightarrow> (int \<Rightarrow> world \<Rightarrow> world) option \<Rightarrow>
   capture_env \<Rightarrow> world \<Rightarrow> world \<times> py_exn option" where
  "run_record self_id u duration duration_unit timeout_callback env w =
     (if self_id = None then (w, Some OtherException)
      else if \<not> stream_ok env then (w, None)
      else case mkdir_raises env of
        Some e \<Rightarrow> if is_Exception e then (cleanup_on_failure e u w, None) else (w, Some e)
      | None \<Rightarrow>
         (case open_stream_result env of
            Inl e \<Rightarrow> if is_Exception e then (cleanup_on_failure e u w, None) else (w, Some e)
          | Inr stream_fd \<Rightarrow>
             (let out = new_output env;
                  timeout = record_timeout duration duration_unit
              in case output_open_raises env of
                   Some e \<Rightarrow>
                     (release False stream_fd out u
                        (register u (stream_fd, out) (FileOutput env (open_stream env stream_fd w))),
                      caught_inside (Some e))
                 | None \<Rightarrow>
                    (let ran = runner_run env stream_fd
                                 (\<lambda>s. if timer_armed timeout \<and> timer_fires env
                                      then timeout_handler self_id stream_fd timeout_callback
                                             (timer_fire (new_timer env) s)
                                      else s)
                                 (at_run duration duration_unit u env w);
                         w6 = (if timer_armed timeout then timer_cancel (new_timer env) (fst ran)
                               else fst ran)
                     in (release True stream_fd out u w6, caught_inside (snd ran))))))"

text \<open>
  \<open>stream_writer\<close>: the result \<open>Inr True\<close> is the return of line 709, \<open>Inr False\<close> the return of
  \<open>None\<close> after the handler of lines 710-719 (whose \<open>self.ssl = False\<close> is left out), \<open>Inl\<close> an
  exception that is not an \<open>Exception\<close>.  The \<open>finally\<close> closes the output only; nothing
  deletes the entry.
\<close>

definition stream_writer :: "url \<Rightarrow> capture_env \<Rightarrow> world \<Rightarrow> world \<times> (py_exn + bool)" where
  "stream_writer u env w =
     (let out = new_output env; w0 = FileOutput env w
      in case open_stream_result env of
           Inl e \<Rightarrow> (w0, if is_Exception e then Inr False else Inl e)
         | Inr stream_fd \<Rightarrow>
            (let w1 = open_stream env stream_fd w0
             in case output_open_raises env of
                  Some e \<Rightarrow> (w1, if is_Exception e then Inr False else Inl e)
                | None \<Rightarrow>
                   (let ran = runner_run env stream_fd (\<lambda>s. s)
                                (register u (stream_fd, out) (output_open out w1));
                        w4 = try_close_output out (fst ran)
                    in case snd ran of
                         None \<Rightarrow> (w4, Inr True)
                       | Some e \<Rightarrow> (w4, if is_Exception e then Inr False else Inl e))))"

text \<open>
  \<open>Kwai.run\<close>, lines 883-949.  The guard of line 885 tests the URL of line 884, the empty
  string; the key used for the registry is the live URL found afterwards (line 907).  The
  probe is \<open>get_live_url\<close>: it raises, or returns \<open>None\<close>, or a URL.
\<close>

datatype probe = ProbeRaises py_exn | NotLive | Live url

definition kwai_run ::
  "(int \<Rightarrow> world \<Rightarrow> world) option \<Rightarrow> user \<Rightarrow> probe \<Rightarrow> capture_env \<Rightarrow> world \<Rightarrow>
   world \<times> py_exn option" where
  "kwai_run gui_cb usr p env w =
     (if registered [] w then (w, None)
      else case p of
        ProbeRaises e \<Rightarrow> (w, if is_Exception e then None else Some e)
      | NotLive \<Rightarrow> (w, None)
      | Live live_url \<Rightarrow>
          if live_url = [] then (w, None)
          else (case run_record (Some (user_id usr)) live_url (user_duration usr)
                       (user_duration_unit usr)
                       (Some (kwai_timeout_callback gui_cb (user_id usr))) env w of
                  (w', r) \<Rightarrow> (w', case r of None \<Rightarrow> None
                                 | Some e \<Rightarrow> if is_Exception e then None else Some e)))"

section \<open>Starting a recorder and adding a user (lines 180-243 and 102-124)\<close>

text \<open>
  \<open>globals()[user['platform']]\<close>: the names bound in the module \<open>live_recorder.py\<close>; a name
  not in the table is a \<open>KeyError\<close>.  The two recorder classes are called with
  \<open>(config, user, gui_timeout_callback=...)\<close>: both run \<open>LiveRecorder.__init__\<close> with the user,
  and \<open>Kwai.__init__\<close> then reads \<open>config['proxy']\<close> (line 758).  What calling one of the other
  globals that way does is for the library to say.  The result of \<open>instantiate\<close> is the
  exception of lines 114-115 of \<open>add_user\<close>, \<open>None\<close> when the recorder is constructed.
\<close>

datatype global_entry = RecorderClass | OtherGlobal

definition module_globals :: "string \<Rightarrow> global_entry option" where
  "module_globals n =
     (if n \<in> set [''LiveRecorder'', ''Kwai''] then Some RecorderClass
      else if n \<in> set [''asyncio'', ''json'', ''os'', ''re'', ''time'', ''threading'', ''warnings'',
          ''urllib3'', ''InsecureRequestWarning'', ''ConfigManager'', ''logger'', ''SimpleCookie'',
          ''Path'', ''Dict'', ''Tuple'', ''Union'', ''parse_qs'', ''requests'', ''hashlib'',
          ''urllib'', ''anyio'', ''ffmpeg'', ''httpx'', ''jsengine'', ''streamlink'',
          ''AsyncProxyTransport'', ''parse'', ''Options'', ''StreamIO'', ''HTTPStream'',
          ''HLSStream'', ''open_stream'', ''FileOutput'', ''StreamRunner'', ''recording'', ''run'',
          ''__name__'', ''__doc__'', ''__package__'', ''__loader__'', ''__spec__'', ''__file__'',
          ''__cached__'', ''__builtins__'', ''__annotations__'']
      then Some OtherGlobal
      else None)"

definition instantiate :: "library \<Rightarrow> config \<Rightarrow> user \<Rightarrow> py_exn option" where
  "instantiate l cfg usr =
     (case module_globals (user_platform usr) of
        None \<Rightarrow> Some KeyError
      | Some OtherGlobal \<Rightarrow> map_option raised (call_raises l (user_platform usr))
      | Some RecorderClass \<Rightarrow>
          (case init_raises l cfg usr of
             Some c \<Rightarrow> Some (raised c)
           | None \<Rightarrow>
               if user_platform usr = ''Kwai'' \<and> proxy cfg = None then Some KeyError else None))"

text \<open>
  Lines 214-216 of \<open>run_loop\<close>: the same with the read of \<open>platform_class.__name__\<close> for the
  log between lookup and call, an \<open>AttributeError\<close> for an object without that attribute
  (a class has it).
\<close>

definition instantiate_logged :: "library \<Rightarrow> config \<Rightarrow> user \<Rightarrow> py_exn option" where
  "instantiate_logged l cfg usr =
     (if module_globals (user_platform usr) = Some OtherGlobal \<and> \<not> has_name l (user_platform usr)
      then Some OtherException
      else instantiate l cfg usr)"

text \<open>\<open>self.loop.create_task(self._record_task(recorder))\<close> and \<open>self.tasks.append(task)\<close>.\<close>

definition create_task :: "ref \<Rightarrow> user \<Rightarrow> world \<Rightarrow> world" where
  "create_task self usr w =
     (let r = recorders w self
      in (set_recorder self (r\<lparr>tasks := tasks r @ [length (task_store w)]\<rparr>) w)
           \<lparr>task_store := task_store w @
              [\<lparr>task_user = usr, task_done = False, task_cancelled = False\<rparr>]\<rparr>)"

text \<open>
  \<open>start\<close>, lines 185-198 and 243: the result says whether the function \<open>run_loop\<close> is returned
  (\<open>True\<close>) or \<open>None\<close>.
\<close>

definition start :: "ref \<Rightarrow> world \<Rightarrow> world \<times> bool" where
  "start self w =
     (let r = recorders w self
      in if running r then (log_event AlreadyRunning w, False)
         else (set_recorder self
                 (r\<lparr>running := True,
                    loop := Some \<lparr>loop_running = False, loop_stop_requested = False\<rparr>\<rparr>) w,
               True))"

text \<open>
  Lines 211-227, the body of the loop over the users, with its two handlers.  Without a loop
  \<open>self.loop.create_task\<close> raises an \<open>AttributeError\<close>.
\<close>

definition spawn :: "ref \<Rightarrow> user \<Rightarrow> world \<Rightarrow> world" where
  "spawn self usr w =
     (case instantiate_logged (lib w) (config (recorders w self)) usr of
        Some e \<Rightarrow>
          if e = KeyError then log_event (PlatformNotFound (user_platform usr) e) w
          else log_event (CreateFailed (user_platform usr) e) w
      | None \<Rightarrow>
          (case loop (recorders w self) of
             None \<Rightarrow> log_event (CreateFailed (user_platform usr) OtherException) w
           | Some l \<Rightarrow> create_task self usr w))"

text \<open>
  \<open>run_loop\<close>, lines 200-240, up to the moment when \<open>run_forever\<close> is running.  Every exception
  is caught by line 237, so the caller gets none: the second component is \<open>None\<close> on each
  path.  \<open>start_and_run\<close> is what the callers do with the result of \<open>start\<close> (\<open>gui.py\<close>, lines
  900-907 and 1161-1164).
\<close>

definition run_forever :: "ref \<Rightarrow> world \<Rightarrow> world" where
  "run_forever self w =
     set_recorder self
       ((recorders w self)\<lparr>loop := map_option (\<lambda>l. l\<lparr>loop_running := True\<rparr>)
           (loop (recorders w self))\<rparr>) w"

definition run_loop :: "schedule \<Rightarrow> ref \<Rightarrow> world \<Rightarrow> world \<times> py_exn option" where
  "run_loop sch self w =
     (case users (config (recorders w self)) of
        None \<Rightarrow> (stop sch self (log_event (StartFailed KeyError) w), None)
      | Some us \<Rightarrow>
          (let w1 = fold (spawn self) us w
           in case loop (recorders w1 self) of
                None \<Rightarrow> (stop sch self (log_event (StartFailed OtherException) w1), None)
              | Some l \<Rightarrow> (run_forever self w1, None)))"

definition start_and_run :: "schedule \<Rightarrow> ref \<Rightarrow> world \<Rightarrow> world \<times> py_exn option" where
  "start_and_run sch self w =
     (case start self w of (w', run_loop_returned) \<Rightarrow>
        if run_loop_returned then run_loop sch self w' else (w', None))"

text \<open>
  The state right after the module is loaded and the recorders are constructed (lines 41 and
  60-61; \<open>gui.py\<close>, lines 73-79), for a given behaviour of the libraries.
\<close>

definition idle_recorder :: "config \<Rightarrow> live_recorder" where
  "idle_recorder cfg = \<lparr>config = cfg, running = False, tasks = [], loop = None\<rparr>"

definition initial_world :: "library \<Rightarrow> (ref \<Rightarrow> config) \<Rightarrow> world" where
  "initial_world l cfgs =
     \<lparr>recording = [],
      fds = (\<lambda>_. \<lparr>fd_closed = True, fd_close_raises = False\<rparr>),
      outs = (\<lambda>_. \<lparr>opened = False, closed_attr = None, out_close_raises = False\<rparr>),
      timers = (\<lambda>_. NoTimer),
      task_store = [],
      recorders = (\<lambda>i. idle_recorder (cfgs i)),
      gui = \<lparr>gui_recorder = None, gui_recording = False, user_recorders = [],
              user_recording_status = []\<rparr>,
      events = [],
      lib = l\<rparr>"

text \<open>The users of a configuration for which \<open>run_loop\<close> creates a task, in their order.\<close>

definition spawned :: "library \<Rightarrow> config \<Rightarrow> user list \<Rightarrow> user list" where
  "spawned l cfg us = filter (\<lambda>u. instantiate_logged l cfg u = None) us"

text \<open>\<open>add_user\<close>, lines 102-124: the handler logs and raises the exception again.\<close>

definition add_user :: "ref \<Rightarrow> user \<Rightarrow> world \<Rightarrow> world \<times> py_exn option" where
  "add_user self usr w =
     (let r = recorders w self
      in if \<not> running r then (log_event NotRunning w, None)
         else (case instantiate (lib w) (config r) usr of
                 Some e \<Rightarrow> (log_event (AddUserFailed e) w, Some e)
               | None \<Rightarrow>
                   (case loop r of
                      None \<Rightarrow> (log_event (AddUserFailed OtherException) w, Some OtherException)
                    | Some l \<Rightarrow> (create_task self usr w, None))))"

section \<open>Examples\<close>

text \<open>
  Users and configurations for the examples below: two users of the platform \<open>Kwai\<close>, one of
  them with a duration limit of two seconds; a user of the platform \<open>Douyin\<close>, a name the
  module does not bind; a user whose platform is the name of the base class \<open>LiveRecorder\<close>,
  which is no platform implementation (its \<open>run\<close> is \<open>pass\<close>, line 357).  The configuration has
  the empty proxy.
\<close>

definition user_A :: user where
  "user_A = \<lparr>user_id = 1, user_platform = ''Kwai'', user_name = ''a'', user_interval = 10,
     user_duration = Some 2, user_duration_unit = Some ''seconds''\<rparr>"

definition user_B :: user where
  "user_B = \<lparr>user_id = 2, user_platform = ''Kwai'', user_name = ''b'', user_interval = 10,
     user_duration = None, user_duration_unit = None\<rparr>"

definition user_X :: user where
  "user_X = \<lparr>user_id = 3, user_platform = ''Douyin'', user_name = ''x'', user_interval = 10,
     user_duration = None, user_duration_unit = None\<rparr>"

definition user_L :: user where
  "user_L = \<lparr>user_id = 4, user_platform = ''LiveRecorder'', user_name = ''l'', user_interval = 10,
     user_duration = None, user_duration_unit = None\<rparr>"

text \<open>Users whose platform is another global of the module: a module and a class of streamlink.\<close>

definition user_J :: user where
  "user_J = \<lparr>user_id = 5, user_platform = ''json'', user_name = ''j'', user_interval = 10,
     user_duration = None, user_duration_unit = None\<rparr>"

definition user_S :: user where
  "user_S = \<lparr>user_id = 6, user_platform = ''StreamIO'', user_name = ''s'', user_interval = 10,
     user_duration = None, user_duration_unit = None\<rparr>"

definition config_of :: "user list \<Rightarrow> config" where
  "config_of us = \<lparr>proxy = Some [], users = Some us\<rparr>"

text \<open>
  A library for the examples: \<open>LiveRecorder.__init__\<close> succeeds for every user, and of the
  other globals only the class \<open>StreamIO\<close>, which takes any arguments, can be called.  The
  examples use the platforms above only.  And schedules for them: the event loop cancels in
  time, and either no capture or every capture gets through its cleanup before \<open>stop\<close>
  returns.
\<close>

definition plain_library :: library where
  "plain_library =
     \<lparr>has_name = (\<lambda>n. True),
      call_raises = (\<lambda>n. if n = ''StreamIO'' then None else Some CtorException),
      init_raises = (\<lambda>cfg usr. None)\<rparr>"

definition none_finish :: schedule where
  "none_finish = \<lparr>cancel_in_time = True, finishing = (\<lambda>u. False)\<rparr>"

definition all_finish :: schedule where
  "all_finish = \<lparr>cancel_in_time = True, finishing = (\<lambda>u. True)\<rparr>"

text \<open>
  A library whose client refuses a proxy: \<open>get_client\<close> hands a proxy containing \<open>socks\<close> to
  \<open>AsyncProxyTransport.from_url\<close> (line 387), which knows the schemes \<open>socks4\<close> and \<open>socks5\<close>
  and raises a \<open>ValueError\<close> for this one; and a configuration with that proxy.
\<close>

definition socks_library :: library where
  "socks_library =
     plain_library\<lparr>init_raises :=
       (\<lambda>cfg usr. if proxy cfg = Some ''socks://127.0.0.1:1080'' then Some CtorException
                   else None)\<rparr>"

definition socks_config :: "user list \<Rightarrow> config" where
  "socks_config us = \<lparr>proxy = Some ''socks://127.0.0.1:1080'', users = Some us\<rparr>"

text \<open>
  A capture in which nothing fails: the stream opens under the given reference, the output
  is a \<open>FileOutput\<close> without attribute \<open>closed\<close>, no other thread interferes, the stream ends
  by itself.
\<close>

definition quiet_env :: "ref \<Rightarrow> capture_env" where
  "quiet_env i =
     \<lparr>stream_ok = True, mkdir_raises = None, open_stream_result = Inr i,
      new_fd_close_raises = False, new_output = i, new_output_closed_attr = None,
      new_output_close_raises = False, output_open_raises = None, new_timer = i,
      others = (\<lambda>w. w), timer_fires = False, run_raises = None\<rparr>"

text \<open>
  The application with all users recording (recorder \<open>0\<close>, here with the user \<open>user_B\<close>, held
  in \<open>self.recorder\<close>, \<open>gui.py\<close> line 1160) and the single user \<open>user_A\<close> recording on a recorder
  of its own (recorder \<open>2\<close>, \<open>gui.py\<close> lines 899-903 and 930), while \<open>user_B\<close> is live and being
  captured.
\<close>

definition global_and_single :: world where
  "global_and_single =
     (let w0 = initial_world plain_library
                 (\<lambda>i. if i = 0 then config_of [user_B] else config_of [user_A]);
          w1 = fst (start_and_run none_finish 0 w0);
          w2 = w1\<lparr>gui := (gui w1)\<lparr>gui_recorder := Some 0, gui_recording := True\<rparr>\<rparr>;
          w3 = fst (start_and_run none_finish 2 w2);
          w4 = w3\<lparr>gui := (gui w3)\<lparr>user_recorders := [(1, 2)],
                   user_recording_status := [(1, True)]\<rparr>\<rparr>
      in capturing ''b'' (quiet_env 2) w4)"

section \<open>Properties of the request signature\<close>

lemma parse_query_distinct: "distinct (map fst (parse_query q))"
proof -
  have "distinct (map fst d) \<Longrightarrow>
      distinct (map fst (fold (\<lambda>pair query_obj.
        AList.update (fst (split_pair pair)) (snd (split_pair pair)) query_obj) ps d))" for ps d
    by (induction ps arbitrary: d) (auto simp: distinct_update)
  then show ?thesis by (simp add: parse_query_def)
qed

lemma merge_dicts_distinct: "distinct (map fst a) \<Longrightarrow> distinct (map fst (merge_dicts a b))"
  unfolding merge_dicts_def by (induction b arbitrary: a) (auto simp: distinct_update)

lemma str_values_distinct: "distinct (map fst (str_values str post_dict))"
proof -
  have "distinct (map fst d) \<Longrightarrow>
      distinct (map fst (fold (\<lambda>(k, v) d. AList.update k (str v) d) xs d))" for xs d
    by (induction xs arbitrary: d) (auto simp: distinct_update)
  from this [of "[]" post_dict] show ?thesis by (simp add: str_values_def)
qed

lemma map_of_rev_distinct: "distinct (map fst xs) \<Longrightarrow> map_of (rev xs) = map_of xs"
  by (subst map_of_inject_set) (simp_all add: rev_map [symmetric])

lemma merge_dicts_map_of: "map_of (merge_dicts a b) = map_of a ++ map_of (rev b)"
  unfolding merge_dicts_def
proof (induction b arbitrary: a)
  case Nil
  then show ?case by simp
next
  case (Cons p b)
  obtain k v where p: "p = (k, v)" by (cases p)
  show ?case
    by (simp add: p Cons.IH update_conv' map_add_def fun_eq_iff split: option.splits)
qed

lemma url_string_concat:
  "fold (\<lambda>(k, v) s. if k \<in> set excluded_keys then s else s @ k @ ''='' @ unquote v) items acc =
   acc @ concat (map (\<lambda>(k, v). k @ ''='' @ unquote v)
     (filter (\<lambda>(k, v). k \<notin> set excluded_keys) items))"
  by (induction items arbitrary: acc) (auto)

lemma sort_key_fst_distinct:
  assumes "distinct (map fst al)"
  shows "sort_key fst al =
    map (\<lambda>k. (k, the (map_of al k))) (sorted_list_of_set (dom (map_of al)))"
proof -
  let ?xs = "sort_key fst al"
  have d: "distinct (map fst ?xs)" using assms by (simp add: distinct_map)
  have s: "sorted (map fst ?xs)" by simp
  have keys: "map fst ?xs = sorted_list_of_set (dom (map_of al))"
    using d s by (metis dom_map_of_conv_image_fst list.set_map set_sort
        sorted_list_of_set.idem_if_sorted_distinct)
  have "map (\<lambda>p. (fst p, the (map_of al (fst p)))) ?xs = ?xs"
  proof (rule map_idI)
    fix p assume "p \<in> set ?xs"
    then have "p \<in> set al" by simp
    then have "map_of al (fst p) = Some (snd p)" using assms by (simp add: map_of_eq_Some_iff)
    then show "(fst p, the (map_of al (fst p))) = p" by simp
  qed
  then have "?xs = map (\<lambda>k. (k, the (map_of al k))) (map fst ?xs)"
    by (simp add: comp_def)
  with keys show ?thesis by simp
qed

text \<open>
  Claim C2.  For every query string and every dict of post parameters, the signature is the
  MD5 hex digest of the canonical string of the merged parameters (post parameters over query
  parameters): keys ascending, the fields \<open>sig\<close>, \<open>__NS_sig3\<close> and \<open>__NStokensig\<close> left out,
  every value percent-decoded, the secret \<open>382700b563f4\<close> appended.  The right-hand side
  depends on the parameters only through the merged map, so the signature does not depend on
  the order in which the dicts were filled.
\<close>

theorem create_signature_canonical:
  "create_signature md5_hexdigest unquote str query_str post_dict =
     md5_hexdigest (canonical_string unquote
       (map_of (parse_query query_str) ++ map_of (str_values str post_dict)))"
proof -
  let ?mo = "merge_dicts (parse_query query_str) (str_values str post_dict)"
  have dist: "distinct (map fst ?mo)"
    by (rule merge_dicts_distinct) (rule parse_query_distinct)
  have ex: "(k \<notin> set excluded_keys) = (k \<notin> {''sig'', ''__NS_sig3'', ''__NStokensig''})" for k
    by (simp add: excluded_keys_def)
  show ?thesis
    unfolding create_signature_def Let_def url_string_def canonical_string_def secret_def
      url_string_concat sort_key_fst_distinct [OF dist] merge_dicts_map_of
      map_of_rev_distinct [OF str_values_distinct]
    by (simp add: filter_map comp_def ex)
qed

theorem create_signature_canonical_witness:
  "create_signature (\<lambda>s. s) (\<lambda>s. s) (\<lambda>s. s) ''b=2&a=1&sig=zz&c&b=3'' [(''a'', ''7'')] =
     canonical_string (\<lambda>s. s)
       (map_of (parse_query ''b=2&a=1&sig=zz&c&b=3'') ++
        map_of (str_values (\<lambda>s. s) [(''a'', ''7'')]))
   \<and> create_signature (\<lambda>s. s) (\<lambda>s. s) (\<lambda>s. s) ''b=2&a=1&sig=zz&c&b=3'' [(''a'', ''7'')] =
     ''a=7b=3c=382700b563f4''"
proof -
  have "create_signature (\<lambda>s. s) (\<lambda>s. s) (\<lambda>s. s) ''b=2&a=1&sig=zz&c&b=3'' [(''a'', ''7'')] =
     ''a=7b=3c=382700b563f4''"
    by code_simp
  then show ?thesis
    using create_signature_canonical [of "\<lambda>s. s" "\<lambda>s. s" "\<lambda>s. s" "''b=2&a=1&sig=zz&c&b=3''"
        "[(''a'', ''7'')]"]
    by simp
qed

section \<open>Properties of the monitor task\<close>

lemma wait_loop_full:
  "(\<And>k. k < n \<Longrightarrow> running_at env (t + real k) \<and> wait_sleep_raises env (t + real k) = None) \<Longrightarrow>
   wait_loop env True t n = (t + real n, None)"
proof (induction n arbitrary: t)
  case 0
  then show ?case by simp
next
  case (Suc n)
  have a: "running_at env t \<and> wait_sleep_raises env t = None" using Suc.prems [of 0] by simp
  have "wait_loop env True (t + 1) n = (t + 1 + real n, None)"
  proof (rule Suc.IH)
    fix k assume "k < n"
    then show "running_at env (t + 1 + real k) \<and> wait_sleep_raises env (t + 1 + real k) = None"
      using Suc.prems [of "Suc k"] by (simp add: algebra_simps)
  qed
  with a show ?case by (simp add: algebra_simps)
qed

lemma wait_loop_bounds:
  "t \<le> fst (wait_loop env tr t n) \<and> fst (wait_loop env tr t n) \<le> t + real n"
proof (induction n arbitrary: t)
  case 0 show ?case by simp
next
  case (Suc n)
  show ?case using Suc.IH [of "t + 1"] by (auto split: option.splits)
qed

lemma wait_loop_prompt:
  assumes flag: "\<And>u. running_at env u = (u < r)"
    and quiet: "\<And>u. wait_sleep_raises env u = None"
    and inside: "t \<le> r" "r \<le> t + real n"
  shows "r \<le> fst (wait_loop env True t n) \<and> fst (wait_loop env True t n) < r + 1 \<and> snd (wait_loop env True t n) = None"
  using inside
proof (induction n arbitrary: t)
  case 0
  then show ?case by simp
next
  case (Suc n)
  show ?case
  proof (cases "t < r")
    case False
    with Suc.prems show ?thesis by (simp add: flag)
  next
    case True
    show ?thesis
    proof (cases "t + 1 \<le> r")
      case True
      then have "r \<le> fst (wait_loop env True (t + 1) n) \<and> fst (wait_loop env True (t + 1) n) < r + 1
          \<and> snd (wait_loop env True (t + 1) n) = None"
        using Suc.prems by (intro Suc.IH) auto
      with \<open>t < r\<close> show ?thesis by (simp add: flag quiet)
    next
      case False
      have "wait_loop env True (t + 1) n = (t + 1, None)"
        using False by (cases n) (simp_all add: flag)
      with \<open>t < r\<close> False show ?thesis by (simp add: flag quiet)
    qed
  qed
qed

text \<open>
  Claim C6.  The wait is made of \<open>interval\<close> sleeps of one second, with the stop flag read
  before each: when nothing stops or interrupts it, the loop is left \<open>interval\<close> seconds after
  it was entered.  When \<open>self.running\<close> is lowered at a time \<open>r\<close> inside the wait, the loop
  is left at the first check after \<open>r\<close>, less than one second later: only the sleep under way
  at \<open>r\<close> runs out, whatever the interval.
\<close>

theorem cooldown_wait:
  "((\<forall>k<nat interval. running_at env (t + real k) \<and> wait_sleep_raises env (t + real k) = None) \<longrightarrow>
      wait_loop env True t (nat interval) = (t + real (nat interval), None))
   \<and> ((\<forall>u. running_at env u = (u < r)) \<and> (\<forall>u. wait_sleep_raises env u = None) \<and>
        t \<le> r \<and> r \<le> t + real (nat interval) \<longrightarrow>
      r \<le> fst (wait_loop env True t (nat interval)) \<and>
      fst (wait_loop env True t (nat interval)) < r + 1 \<and>
      snd (wait_loop env True t (nat interval)) = None)"
  using wait_loop_full [of "nat interval" env t] wait_loop_prompt [of env r t "nat interval"]
  by blast

theorem cooldown_wait_witness:
  "wait_loop \<lparr>running_at = (\<lambda>u. u < 5 / 2), run_result = (\<lambda>u. (0, None)),
      wait_sleep_raises = (\<lambda>u. None), backoff_sleep_raises = (\<lambda>u. None)\<rparr> True 0 (nat 5) = (3, None)
   \<and> 5 / 2 \<le> fst (wait_loop \<lparr>running_at = (\<lambda>u. u < 5 / 2), run_result = (\<lambda>u. (0, None)),
      wait_sleep_raises = (\<lambda>u. None), backoff_sleep_raises = (\<lambda>u. None)\<rparr> True 0 (nat 5))
   \<and> fst (wait_loop \<lparr>running_at = (\<lambda>u. u < 5 / 2), run_result = (\<lambda>u. (0, None)),
      wait_sleep_raises = (\<lambda>u. None), backoff_sleep_raises = (\<lambda>u. None)\<rparr> True 0 (nat 5)) < 5 / 2 + 1"
  using cooldown_wait [of 5 "\<lparr>running_at = (\<lambda>u. u < 5 / 2), run_result = (\<lambda>u. (0, None)),
      wait_sleep_raises = (\<lambda>u. None), backoff_sleep_raises = (\<lambda>u. None)\<rparr>" 0 "5 / 2"]
  by (simp add: eval_nat_numeral)







text \<open>
  No \<open>Exception\<close> ever ends the loop, as long as the five-second sleep of the handler itself
  raises nothing but a cancellation.
\<close>

lemma task_handler_no_Exception:
  assumes "\<And>u e'. backoff_sleep_raises env u = Some e' \<Longrightarrow> \<not> is_Exception e'"
  shows "task_handler env e t lg = Propagate x t' lg' \<Longrightarrow> \<not> is_Exception x"
  using assms by (auto simp: task_handler_def split: if_splits option.splits)

lemma iteration_no_Exception:
  assumes "\<And>u e'. backoff_sleep_raises env u = Some e' \<Longrightarrow> \<not> is_Exception e'"
  shows "iteration env interval t lg = Propagate x t' lg' \<Longrightarrow> \<not> is_Exception x"
  using task_handler_no_Exception [OF assms]
  by (auto simp: iteration_def cooldown_def split: if_splits option.splits prod.splits)

lemma record_task_no_Exception:
  assumes "\<And>u e'. backoff_sleep_raises env u = Some e' \<Longrightarrow> \<not> is_Exception e'"
  shows "record_task env interval n t lg = Raised x t' lg' \<Longrightarrow> \<not> is_Exception x"
proof (induction n arbitrary: t lg)
  case 0
  then show ?case by simp
next
  case (Suc n)
  then show ?case
    using iteration_no_Exception [OF assms]
    by (auto split: if_splits step.splits)
qed

section \<open>Properties of starting and adding users\<close>

lemmas scenario_defs = initial_world_def idle_recorder_def config_of_def user_A_def user_B_def
  user_X_def user_L_def user_J_def user_S_def plain_library_def none_finish_def all_finish_def

lemmas start_defs = start_and_run_def start_def run_loop_def spawn_def instantiate_def
  instantiate_logged_def raised_def module_globals_def create_task_def run_forever_def
  set_recorder_def log_event_def

lemma spawn_frame:
  "recording (spawn self u w) = recording w"
  "fds (spawn self u w) = fds w"
  "outs (spawn self u w) = outs w"
  "timers (spawn self u w) = timers w"
  "gui (spawn self u w) = gui w"
  "lib (spawn self u w) = lib w"
  by (auto simp: spawn_def log_event_def create_task_def set_recorder_def Let_def
      split: option.splits)

lemma spawn_recorder:
  "recorders (spawn self u w) =
     (recorders w)(self := (recorders w self)
        \<lparr>tasks := tasks (recorders w self) @
           (if instantiate_logged (lib w) (config (recorders w self)) u = None
               \<and> loop (recorders w self) \<noteq> None
            then [length (task_store w)] else [])\<rparr>)"
  by (auto simp: spawn_def log_event_def create_task_def set_recorder_def Let_def
      split: option.splits)

lemma spawn_task_store:
  "task_store (spawn self u w) =
     task_store w @
       (if instantiate_logged (lib w) (config (recorders w self)) u = None
           \<and> loop (recorders w self) \<noteq> None
        then [\<lparr>task_user = u, task_done = False, task_cancelled = False\<rparr>] else [])"
  by (auto simp: spawn_def log_event_def create_task_def set_recorder_def Let_def
      split: option.splits)

lemma fold_spawn:
  assumes "loop (recorders w self) = Some l"
  shows "recording (fold (spawn self) us w) = recording w
    \<and> fds (fold (spawn self) us w) = fds w
    \<and> outs (fold (spawn self) us w) = outs w
    \<and> timers (fold (spawn self) us w) = timers w
    \<and> gui (fold (spawn self) us w) = gui w
    \<and> lib (fold (spawn self) us w) = lib w
    \<and> task_store (fold (spawn self) us w) =
        task_store w @ map (\<lambda>u. \<lparr>task_user = u, task_done = False, task_cancelled = False\<rparr>)
          (spawned (lib w) (config (recorders w self)) us)
    \<and> recorders (fold (spawn self) us w) =
        (recorders w)(self := (recorders w self)
          \<lparr>tasks := tasks (recorders w self) @
             [length (task_store w) ..<
              length (task_store w) + length (spawned (lib w) (config (recorders w self)) us)]\<rparr>)"
  using assms
proof (induction us arbitrary: w)
  case Nil
  then show ?case by (simp add: spawned_def)
next
  case (Cons u us)
  let ?w = "spawn self u w"
  have l: "loop (recorders ?w self) = Some l"
    and c: "config (recorders ?w self) = config (recorders w self)"
    using Cons.prems by (simp_all add: spawn_recorder)
  show ?case
    using Cons.IH [OF l] Cons.prems
    by (auto simp: c spawn_frame spawn_task_store spawn_recorder spawned_def
        upt_rec [of "length (task_store w)"] fun_eq_iff)
qed

lemma start_running:
  "running (recorders w self) \<Longrightarrow> start self w = (log_event AlreadyRunning w, False)"
  by (simp add: start_def)

lemma start_and_run_running:
  "running (recorders w self) \<Longrightarrow> start_and_run p self w = (log_event AlreadyRunning w, None)"
  by (simp add: start_and_run_def start_def)

lemma start_and_run_fresh:
  assumes idle: "\<not> running (recorders w self)"
    and us: "users (config (recorders w self)) = Some us"
  shows "snd (start_and_run p self w) = None
    \<and> running (recorders (fst (start_and_run p self w)) self)
    \<and> tasks (recorders (fst (start_and_run p self w)) self) =
        tasks (recorders w self) @
          [length (task_store w) ..<
           length (task_store w) + length (spawned (lib w) (config (recorders w self)) us)]
    \<and> task_store (fst (start_and_run p self w)) =
        task_store w @ map (\<lambda>u. \<lparr>task_user = u, task_done = False, task_cancelled = False\<rparr>)
          (spawned (lib w) (config (recorders w self)) us)
    \<and> recording (fst (start_and_run p self w)) = recording w
    \<and> events (fst (start_and_run p self w)) = events (fold (spawn self) us (fst (start self w)))
    \<and> (\<forall>j. j \<noteq> self \<longrightarrow> recorders (fst (start_and_run p self w)) j = recorders w j)
    \<and> fds (fst (start_and_run p self w)) = fds w
    \<and> outs (fst (start_and_run p self w)) = outs w
    \<and> timers (fst (start_and_run p self w)) = timers w
    \<and> gui (fst (start_and_run p self w)) = gui w
    \<and> lib (fst (start_and_run p self w)) = lib w
    \<and> recorders (fst (start_and_run p self w)) self =
        (recorders w self)
          \<lparr>running := True,
           tasks := tasks (recorders w self) @
             [length (task_store w) ..<
              length (task_store w) + length (spawned (lib w) (config (recorders w self)) us)],
           loop := Some \<lparr>loop_running = True, loop_stop_requested = False\<rparr>\<rparr>"
proof -
  define w0 where "w0 = set_recorder self ((recorders w self)\<lparr>running := True,
      loop := Some \<lparr>loop_running = False, loop_stop_requested = False\<rparr>\<rparr>) w"
  have s: "start self w = (w0, True)" using idle by (simp add: start_def w0_def)
  have l: "loop (recorders w0 self) = Some \<lparr>loop_running = False, loop_stop_requested = False\<rparr>"
    and c: "config (recorders w0 self) = config (recorders w self)"
    and u0: "users (config (recorders w0 self)) = Some us"
    by (simp_all add: w0_def set_recorder_def us)
  note f = fold_spawn [OF l, of us]
  have l': "loop (recorders (fold (spawn self) us w0) self) =
      Some \<lparr>loop_running = False, loop_stop_requested = False\<rparr>"
    using f l by simp
  have r: "start_and_run p self w = (run_forever self (fold (spawn self) us w0), None)"
    by (simp add: start_and_run_def s run_loop_def u0 l' Let_def)
  have proj: "recorders w0 self = (recorders w self)\<lparr>running := True,
      loop := Some \<lparr>loop_running = False, loop_stop_requested = False\<rparr>\<rparr>"
    "task_store w0 = task_store w" "recording w0 = recording w"
    "\<And>j. j \<noteq> self \<Longrightarrow> recorders w0 j = recorders w j"
    "fds w0 = fds w" "outs w0 = outs w" "timers w0 = timers w" "gui w0 = gui w"
    "lib w0 = lib w"
    by (simp_all add: w0_def set_recorder_def)
  show ?thesis
    unfolding r using f by (simp add: run_forever_def set_recorder_def c proj s)
qed

lemma started_tasks:
  assumes "\<not> running (recorders w self)"
    and "tasks (recorders w self) = []"
    and "users (config (recorders w self)) = Some us"
  shows "map (\<lambda>i. task_user (task_store (fst (start_and_run p self w)) ! i))
        (tasks (recorders (fst (start_and_run p self w)) self)) =
      filter (\<lambda>u. instantiate_logged (lib w) (config (recorders w self)) u = None) us"
    and "distinct (tasks (recorders (fst (start_and_run p self w)) self))"
    and "length (tasks (recorders (fst (start_and_run p self w)) self)) =
      length (filter (\<lambda>u. instantiate_logged (lib w) (config (recorders w self)) u = None) us)"
proof -
  let ?w1 = "fst (start_and_run p self w)"
  note f = start_and_run_fresh [OF assms(1,3), of p]
  let ?n = "length (task_store w)"
  let ?sp = "spawned (lib w) (config (recorders w self)) us"
  have t: "tasks (recorders ?w1 self) = [?n ..< ?n + length ?sp]"
    using f assms(2) by simp
  have st: "task_store ?w1 =
      task_store w @ map (\<lambda>u. \<lparr>task_user = u, task_done = False, task_cancelled = False\<rparr>) ?sp"
    using f by simp
  have c: "map (\<lambda>i. task_user (task_store ?w1 ! i)) (tasks (recorders ?w1 self)) = ?sp"
    unfolding t st by (rule nth_equalityI) (simp_all add: nth_append)
  then show "map (\<lambda>i. task_user (task_store ?w1 ! i)) (tasks (recorders ?w1 self)) =
      filter (\<lambda>u. instantiate_logged (lib w) (config (recorders w self)) u = None) us"
    by (simp add: spawned_def)
  show "distinct (tasks (recorders ?w1 self))" unfolding t by simp
  show "length (tasks (recorders ?w1 self)) =
      length (filter (\<lambda>u. instantiate_logged (lib w) (config (recorders w self)) u = None) us)"
    unfolding t by (simp add: spawned_def)
qed

lemma spawn_events_mono: "set (events w) \<subseteq> set (events (spawn self u w))"
  by (auto simp: spawn_def log_event_def create_task_def set_recorder_def Let_def
      split: option.splits)

lemma fold_spawn_events_mono: "set (events w) \<subseteq> set (events (fold (spawn self) us w))"
proof (induction us arbitrary: w)
  case Nil
  show ?case by simp
next
  case (Cons u us)
  show ?case using spawn_events_mono [of w self u] Cons.IH [of "spawn self u w"] by auto
qed

lemma spawn_config: "config (recorders (spawn self u w) self) = config (recorders w self)"
  by (simp add: spawn_recorder)

text \<open>What \<open>run_loop\<close> logs for a user whose recorder is not constructed (lines 224-227).\<close>

lemma fold_spawn_logged:
  "u \<in> set us \<Longrightarrow> instantiate_logged (lib w) (config (recorders w self)) u = Some e \<Longrightarrow>
   (if e = KeyError then PlatformNotFound (user_platform u) e
    else CreateFailed (user_platform u) e) \<in> set (events (fold (spawn self) us w))"
proof (induction us arbitrary: w)
  case Nil
  then show ?case by simp
next
  case (Cons v us)
  show ?case
  proof (cases "u = v")
    case True
    have "(if e = KeyError then PlatformNotFound (user_platform u) e
        else CreateFailed (user_platform u) e) \<in> set (events (spawn self v w))"
      using Cons.prems(2) True by (simp add: spawn_def log_event_def)
    then show ?thesis using fold_spawn_events_mono [of "spawn self v w" self us] by auto
  next
    case False
    then have "u \<in> set us" using Cons.prems(1) by simp
    then show ?thesis using Cons.IH [of "spawn self v w"] Cons.prems(2)
      by (simp add: spawn_config spawn_frame)
  qed
qed

lemma unknown_platform_KeyError:
  "module_globals (user_platform u) = None \<Longrightarrow> instantiate l cfg u = Some KeyError"
  "module_globals (user_platform u) = None \<Longrightarrow> instantiate_logged l cfg u = Some KeyError"
  by (simp_all add: instantiate_def instantiate_logged_def)

lemma started_logged:
  assumes "\<not> running (recorders w self)"
    and "users (config (recorders w self)) = Some us"
    and "u \<in> set us"
    and "instantiate_logged (lib w) (config (recorders w self)) u = Some e"
  shows "(if e = KeyError then PlatformNotFound (user_platform u) e
      else CreateFailed (user_platform u) e) \<in> set (events (fst (start_and_run p self w)))"
proof -
  note f = start_and_run_fresh [OF assms(1,2), of p]
  have cfg0: "config (recorders (fst (start self w)) self) = config (recorders w self)"
    "lib (fst (start self w)) = lib w"
    using assms(1) by (simp_all add: start_def set_recorder_def)
  have "(if e = KeyError then PlatformNotFound (user_platform u) e
      else CreateFailed (user_platform u) e)
      \<in> set (events (fold (spawn self) us (fst (start self w))))"
    by (rule fold_spawn_logged [OF assms(3)]) (simp add: cfg0 assms(4))
  then show ?thesis using f by simp
qed

text \<open>
  Claim C9, as the code has it.  \<open>start\<close> is idempotent.  After a recorder that was not
  running has been started and its \<open>run_loop\<close> has created the tasks, a further \<open>start\<close>
  returns \<open>None\<close> and changes nothing but the log (no task, no new event loop), and so does a
  further \<open>start\<close> followed by what the callers do with its result.  The tasks of the recorder
  are then one task for each configured user whose recorder was constructed, in the order
  of the configuration, each under a reference of its own, and none for a user whose platform
  lookup or constructor raised; when every user's recorder is constructed these are exactly
  the configured users.
\<close>

theorem start_idempotent:
  assumes "\<not> running (recorders w self)"
    and "tasks (recorders w self) = []"
    and "users (config (recorders w self)) = Some us"
  shows "(running (recorders w' self') \<longrightarrow> start self' w' = (log_event AlreadyRunning w', False))
    \<and> start self (fst (start_and_run p self w)) =
      (log_event AlreadyRunning (fst (start_and_run p self w)), False)
    \<and> start_and_run p self (fst (start_and_run p self w)) =
      (log_event AlreadyRunning (fst (start_and_run p self w)), None)
    \<and> map (\<lambda>i. task_user (task_store (fst (start_and_run p self w)) ! i))
        (tasks (recorders (fst (start_and_run p self w)) self)) =
      filter (\<lambda>u. instantiate_logged (lib w) (config (recorders w self)) u = None) us
    \<and> distinct (tasks (recorders (fst (start_and_run p self w)) self))
    \<and> ((\<forall>u \<in> set us. instantiate_logged (lib w) (config (recorders w self)) u = None) \<longrightarrow>
        map (\<lambda>i. task_user (task_store (fst (start_and_run p self w)) ! i))
          (tasks (recorders (fst (start_and_run p self w)) self)) = us)"
proof -
  let ?w1 = "fst (start_and_run p self w)"
  note f = start_and_run_fresh [OF assms(1,3), of p]
  have run: "running (recorders ?w1 self)" using f by simp
  have a: "start self ?w1 = (log_event AlreadyRunning ?w1, False)"
    by (rule start_running [OF run])
  have b: "start_and_run p self ?w1 = (log_event AlreadyRunning ?w1, None)"
    by (rule start_and_run_running [OF run])
  note t = started_tasks [OF assms, of p]
  have e: "(\<forall>u \<in> set us. instantiate_logged (lib w) (config (recorders w self)) u = None) \<longrightarrow>
      filter (\<lambda>u. instantiate_logged (lib w) (config (recorders w self)) u = None) us = us"
    by simp
  have g: "running (recorders w' self') \<longrightarrow> start self' w' = (log_event AlreadyRunning w', False)"
    by (simp add: start_running)
  show ?thesis using a b t(1,2) e g by simp
qed

theorem start_idempotent_witness:
  "start_and_run none_finish 0
      (fst (start_and_run none_finish 0
         (initial_world plain_library (\<lambda>_. config_of [user_A, user_B])))) =
     (log_event AlreadyRunning
        (fst (start_and_run none_finish 0
           (initial_world plain_library (\<lambda>_. config_of [user_A, user_B])))), None)
   \<and> map (\<lambda>i. task_user
          (task_store (fst (start_and_run none_finish 0
             (initial_world plain_library (\<lambda>_. config_of [user_A, user_B])))) ! i))
       (tasks (recorders
          (fst (start_and_run none_finish 0
             (initial_world plain_library (\<lambda>_. config_of [user_A, user_B])))) 0)) =
     [user_A, user_B]"
  using start_idempotent [where w = "initial_world plain_library (\<lambda>_. config_of [user_A, user_B])"
      and self = 0 and us = "[user_A, user_B]" and p = none_finish
      and w' = "initial_world plain_library (\<lambda>_. config_of [user_A, user_B])" and self' = 0]
  by (simp add: scenario_defs instantiate_def instantiate_logged_def module_globals_def)

text \<open>
  The claim as written fails: with a user of the platform \<open>Douyin\<close>, which the module does
  not bind, and a user of \<open>Kwai\<close>, the tasks after \<open>start\<close> are not one per configured user;
  and with a proxy that the client refuses, two users of \<open>Kwai\<close> get no task at all.
\<close>

theorem start_not_one_task_per_user_counterexample:
  "map (\<lambda>i. task_user
          (task_store (fst (start_and_run none_finish 0
             (initial_world plain_library (\<lambda>_. config_of [user_X, user_B])))) ! i))
       (tasks (recorders
          (fst (start_and_run none_finish 0
             (initial_world plain_library (\<lambda>_. config_of [user_X, user_B])))) 0)) =
     [user_B]
   \<and> length (tasks (recorders
          (fst (start_and_run none_finish 0
             (initial_world plain_library (\<lambda>_. config_of [user_X, user_B])))) 0)) = 1
   \<and> users (config (recorders
          (fst (start_and_run none_finish 0
             (initial_world plain_library (\<lambda>_. config_of [user_X, user_B])))) 0)) =
     Some [user_X, user_B]
   \<and> tasks (recorders
          (fst (start_and_run none_finish 0
             (initial_world socks_library (\<lambda>_. socks_config [user_A, user_B])))) 0) = []
   \<and> events (fst (start_and_run none_finish 0
             (initial_world socks_library (\<lambda>_. socks_config [user_A, user_B])))) =
     [CreateFailed ''Kwai'' OtherException, CreateFailed ''Kwai'' OtherException]"
  by (simp add: scenario_defs start_defs socks_library_def socks_config_def)

text \<open>
  Claim C8, as the code has it.  Starting a configuration with a user whose platform names
  nothing in the module reports nothing to the caller: \<open>run_loop\<close> logs an error for that
  user, creates no task for it, and creates the tasks of the users whose recorder is
  constructed; the same holds for every user whose lookup or constructor raises.  \<open>add_user\<close>
  for such a user on a running recorder logs, raises the exception (a \<open>KeyError\<close> for an
  unbound name) to its caller and adds no task; on a recorder that is not running it only
  logs a warning and returns.
\<close>

theorem unknown_platform_skipped:
  assumes "\<not> running (recorders w self)"
    and "tasks (recorders w self) = []"
    and "users (config (recorders w self)) = Some us"
  shows "snd (start_and_run p self w) = None
    \<and> map (\<lambda>i. task_user (task_store (fst (start_and_run p self w)) ! i))
        (tasks (recorders (fst (start_and_run p self w)) self)) =
      filter (\<lambda>u. instantiate_logged (lib w) (config (recorders w self)) u = None) us
    \<and> (\<forall>u \<in> set us. module_globals (user_platform u) = None \<longrightarrow>
          instantiate_logged (lib w) (config (recorders w self)) u = Some KeyError
          \<and> PlatformNotFound (user_platform u) KeyError
              \<in> set (events (fst (start_and_run p self w))))
    \<and> (\<forall>u \<in> set us. \<forall>e. instantiate_logged (lib w) (config (recorders w self)) u = Some e \<longrightarrow>
          (if e = KeyError then PlatformNotFound (user_platform u) e
           else CreateFailed (user_platform u) e) \<in> set (events (fst (start_and_run p self w))))
    \<and> (running (recorders w' self') \<and> module_globals (user_platform u') = None \<longrightarrow>
          add_user self' u' w' = (log_event (AddUserFailed KeyError) w', Some KeyError))
    \<and> (running (recorders w' self') \<and> instantiate (lib w') (config (recorders w' self')) u' = Some e'
          \<longrightarrow> add_user self' u' w' = (log_event (AddUserFailed e') w', Some e'))
    \<and> (\<not> running (recorders w' self') \<longrightarrow> add_user self' u' w' = (log_event NotRunning w', None))"
proof -
  let ?w1 = "fst (start_and_run p self w)"
  let ?cfg = "config (recorders w self)"
  note f = start_and_run_fresh [OF assms(1,3), of p]
  have a: "snd (start_and_run p self w) = None" using f by simp
  note b = started_tasks(1) [OF assms, of p]
  have c: "(if e = KeyError then PlatformNotFound (user_platform u) e
      else CreateFailed (user_platform u) e) \<in> set (events ?w1)"
    if "u \<in> set us" "instantiate_logged (lib w) ?cfg u = Some e" for u e
    by (rule started_logged [OF assms(1,3) that])
  have c': "instantiate_logged (lib w) ?cfg u = Some KeyError
      \<and> PlatformNotFound (user_platform u) KeyError \<in> set (events ?w1)"
    if "u \<in> set us" "module_globals (user_platform u) = None" for u
    using c [OF that(1) unknown_platform_KeyError(2) [OF that(2)]]
      unknown_platform_KeyError(2) [OF that(2)] by simp
  have d: "running (recorders w' self') \<and> module_globals (user_platform u') = None \<longrightarrow>
      add_user self' u' w' = (log_event (AddUserFailed KeyError) w', Some KeyError)"
    by (simp add: add_user_def unknown_platform_KeyError)
  have d': "running (recorders w' self')
      \<and> instantiate (lib w') (config (recorders w' self')) u' = Some e' \<longrightarrow>
      add_user self' u' w' = (log_event (AddUserFailed e') w', Some e')"
    by (simp add: add_user_def)
  have e: "\<not> running (recorders w' self') \<longrightarrow> add_user self' u' w' = (log_event NotRunning w', None)"
    by (simp add: add_user_def)
  show ?thesis using a b c c' d d' e by blast
qed

text \<open>
  The claim as written fails.  With a user of the platform \<open>Douyin\<close>, which the module does
  not bind, starting raises nothing: the unknown platform is only logged.  And a platform
  that is no platform implementation but a name the module binds is not refused: the users of
  the platforms \<open>LiveRecorder\<close> and \<open>StreamIO\<close> get a task each.
\<close>

theorem unknown_platform_counterexample:
  "snd (start_and_run none_finish 0
      (initial_world plain_library (\<lambda>_. config_of [user_X, user_L, user_S, user_B]))) = None
   \<and> events (fst (start_and_run none_finish 0
      (initial_world plain_library (\<lambda>_. config_of [user_X, user_L, user_S, user_B])))) =
       [PlatformNotFound ''Douyin'' KeyError]
   \<and> map task_user
       (task_store (fst (start_and_run none_finish 0
          (initial_world plain_library (\<lambda>_. config_of [user_X, user_L, user_S, user_B]))))) =
       [user_L, user_S, user_B]"
  by (simp add: scenario_defs start_defs)

theorem unknown_platform_skipped_witness:
  "snd (start_and_run none_finish 0
      (initial_world plain_library (\<lambda>_. config_of [user_X, user_J, user_B]))) = None
   \<and> map (\<lambda>i. task_user
          (task_store (fst (start_and_run none_finish 0
             (initial_world plain_library (\<lambda>_. config_of [user_X, user_J, user_B])))) ! i))
       (tasks (recorders
          (fst (start_and_run none_finish 0
             (initial_world plain_library (\<lambda>_. config_of [user_X, user_J, user_B])))) 0)) =
     [user_B]
   \<and> PlatformNotFound ''Douyin'' KeyError \<in>
       set (events (fst (start_and_run none_finish 0
          (initial_world plain_library (\<lambda>_. config_of [user_X, user_J, user_B])))))
   \<and> CreateFailed ''json'' OtherException \<in>
       set (events (fst (start_and_run none_finish 0
          (initial_world plain_library (\<lambda>_. config_of [user_X, user_J, user_B])))))
   \<and> add_user 0 user_X (fst (start_and_run none_finish 0
          (initial_world plain_library (\<lambda>_. config_of [user_B])))) =
       (log_event (AddUserFailed KeyError)
          (fst (start_and_run none_finish 0
             (initial_world plain_library (\<lambda>_. config_of [user_B])))), Some KeyError)
   \<and> add_user 0 user_J (fst (start_and_run none_finish 0
          (initial_world plain_library (\<lambda>_. config_of [user_B])))) =
       (log_event (AddUserFailed OtherException)
          (fst (start_and_run none_finish 0
             (initial_world plain_library (\<lambda>_. config_of [user_B])))), Some OtherException)
   \<and> add_user 0 user_X (initial_world plain_library (\<lambda>_. config_of [user_B])) =
       (log_event NotRunning (initial_world plain_library (\<lambda>_. config_of [user_B])), None)"
proof -
  let ?w0 = "initial_world plain_library (\<lambda>_. config_of [user_X, user_J, user_B])"
  let ?wb = "initial_world plain_library (\<lambda>_. config_of [user_B])"
  have r: "running (recorders (fst (start_and_run none_finish 0 ?wb)) 0)"
    "lib (fst (start_and_run none_finish 0 ?wb)) = plain_library"
    "config (recorders (fst (start_and_run none_finish 0 ?wb)) 0) = config_of [user_B]"
    using start_and_run_fresh [of ?wb 0 "[user_B]" none_finish]
    by (simp_all add: initial_world_def idle_recorder_def config_of_def)
  have n: "\<not> running (recorders ?wb 0)"
    by (simp add: scenario_defs)
  have i: "instantiate_logged plain_library (config_of [user_X, user_J, user_B]) user_X = Some KeyError"
    "instantiate_logged plain_library (config_of [user_X, user_J, user_B]) user_J = Some OtherException"
    "instantiate_logged plain_library (config_of [user_X, user_J, user_B]) user_B = None"
    "instantiate plain_library (config_of [user_B]) user_J = Some OtherException"
    "module_globals (user_platform user_X) = None"
    by (simp_all add: scenario_defs instantiate_def instantiate_logged_def module_globals_def
        raised_def)
  have p: "\<not> running (recorders ?w0 0)" "tasks (recorders ?w0 0) = []"
    "users (config (recorders ?w0 0)) = Some [user_X, user_J, user_B]"
    "lib ?w0 = plain_library" "config (recorders ?w0 0) = config_of [user_X, user_J, user_B]"
    by (simp_all add: initial_world_def idle_recorder_def config_of_def)
  note t1 = unknown_platform_skipped [OF p(1-3), where p = none_finish
      and w' = "fst (start_and_run none_finish 0 ?wb)" and self' = 0 and u' = user_X
      and e' = KeyError, unfolded p(4,5)]
  note t2 = unknown_platform_skipped [OF p(1-3), where p = none_finish
      and w' = "fst (start_and_run none_finish 0 ?wb)" and self' = 0 and u' = user_J
      and e' = OtherException, unfolded p(4,5) r(2,3)]
  note t3 = unknown_platform_skipped [OF p(1-3), where p = none_finish
      and w' = ?wb and self' = 0 and u' = user_X and e' = KeyError]
  have x: "user_X \<noteq> user_J" "user_X \<noteq> user_B" "user_J \<noteq> user_B"
    by (simp_all add: user_X_def user_J_def user_B_def)
  have pl: "user_platform user_X = ''Douyin''" "user_platform user_J = ''json''"
    by (simp_all add: user_X_def user_J_def)
  show ?thesis
    using t1 t2 t3 r(1) n i by (simp add: pl)
qed

section \<open>Properties of stopping\<close>

lemma try_close_frame:
  "recording (try_close_fd f w) = recording w"
  "recorders (try_close_fd f w) = recorders w"
  "task_store (try_close_fd f w) = task_store w"
  "gui (try_close_fd f w) = gui w"
  "timers (try_close_fd f w) = timers w"
  "lib (try_close_fd f w) = lib w"
  "outs (try_close_fd f w) = outs w"
  "recording (try_close_output out w) = recording w"
  "recorders (try_close_output out w) = recorders w"
  "task_store (try_close_output out w) = task_store w"
  "gui (try_close_output out w) = gui w"
  "timers (try_close_output out w) = timers w"
  "lib (try_close_output out w) = lib w"
  "fds (try_close_output out w) = fds w"
  by (auto simp: try_close_fd_def try_close_output_def close_fd_def close_output_def log_event_def)

lemma try_close_flags:
  "fd_close_raises (fds (try_close_fd f w) f') = fd_close_raises (fds w f')"
  "out_close_raises (outs (try_close_output out w) out') = out_close_raises (outs w out')"
  by (auto simp: try_close_fd_def try_close_output_def close_fd_def close_output_def log_event_def)

lemma try_close_mono:
  "fd_closed (fds w f') \<Longrightarrow> fd_closed (fds (try_close_fd f w) f')"
  "\<not> opened (outs w out') \<Longrightarrow> \<not> opened (outs (try_close_output out w) out')"
  by (auto simp: try_close_fd_def try_close_output_def close_fd_def close_output_def log_event_def)

lemma unregister_filter:
  "(if registered u w then unregister u w else w) =
     w\<lparr>recording := filter (\<lambda>x. fst x \<noteq> u) (recording w)\<rparr>"
proof (cases "registered u w")
  case True
  have "AList.delete u (recording w) = filter (\<lambda>x. fst x \<noteq> u) (recording w)"
    by (simp add: AList.delete_eq case_prod_beta' eq_commute)
  then show ?thesis using True by (simp add: unregister_def)
next
  case False
  then have "u \<notin> fst ` set (recording w)"
    by (simp add: registered_def map_of_eq_None_iff)
  then have "filter (\<lambda>x. fst x \<noteq> u) (recording w) = recording w"
    by (auto simp: filter_id_conv)
  then show ?thesis using False by simp
qed

lemma release_frame:
  "recorders (release b f out u w) = recorders w"
  "task_store (release b f out u w) = task_store w"
  "gui (release b f out u w) = gui w"
  "timers (release b f out u w) = timers w"
  "lib (release b f out u w) = lib w"
  unfolding release_def Let_def unregister_filter
  by (simp_all add: try_close_frame)

lemma release_recording:
  "recording (release b f out u w) = filter (\<lambda>x. fst x \<noteq> u) (recording w)"
  unfolding release_def Let_def unregister_filter
  by (simp add: try_close_frame)

lemma release_flags:
  "fd_close_raises (fds (release b f out u w) f') = fd_close_raises (fds w f')"
  "out_close_raises (outs (release b f out u w) out') = out_close_raises (outs w out')"
  unfolding release_def Let_def unregister_filter
  by (simp_all add: try_close_frame try_close_flags)

lemma release_mono:
  "fd_closed (fds w f') \<Longrightarrow> fd_closed (fds (release b f out u w) f')"
  "\<not> opened (outs w out') \<Longrightarrow> \<not> opened (outs (release b f out u w) out')"
  unfolding release_def Let_def unregister_filter
  by (simp_all add: try_close_frame try_close_mono)

lemma close_entry_frame:
  "recording (close_entry e w) = recording w"
  "recorders (close_entry e w) = recorders w"
  "task_store (close_entry e w) = task_store w"
  "gui (close_entry e w) = gui w"
  "timers (close_entry e w) = timers w"
  "lib (close_entry e w) = lib w"
  by (auto simp: close_entry_def close_fd_def close_output_def log_event_def
      split: sum.splits if_splits)

lemma close_entry_flags:
  "fd_close_raises (fds (close_entry e w) f) = fd_close_raises (fds w f)"
  "out_close_raises (outs (close_entry e w) out) = out_close_raises (outs w out)"
  by (auto simp: close_entry_def close_fd_def close_output_def log_event_def
      split: sum.splits if_splits)

lemma close_entry_mono:
  "fd_closed (fds w f) \<Longrightarrow> fd_closed (fds (close_entry e w) f)"
  "\<not> opened (outs w out) \<Longrightarrow> \<not> opened (outs (close_entry e w) out)"
  by (auto simp: close_entry_def close_fd_def close_output_def log_event_def
      split: sum.splits if_splits)

lemma close_entry_closes:
  "\<not> fd_close_raises (fds w (fst (snd e))) \<Longrightarrow> fd_closed (fds (close_entry e w) (fst (snd e)))"
  "\<not> fd_close_raises (fds w (fst (snd e))) \<Longrightarrow> \<not> out_close_raises (outs w (snd (snd e))) \<Longrightarrow>
   \<not> opened (outs (close_entry e w) (snd (snd e)))"
  by (auto simp: close_entry_def close_fd_def close_output_def log_event_def
      split: sum.splits if_splits)

lemma stop_entry_frame:
  "recorders (stop_entry sch e w) = recorders w"
  "task_store (stop_entry sch e w) = task_store w"
  "gui (stop_entry sch e w) = gui w"
  "timers (stop_entry sch e w) = timers w"
  "lib (stop_entry sch e w) = lib w"
  by (simp_all add: stop_entry_def Let_def release_frame close_entry_frame)

lemma stop_entry_recording:
  "recording (stop_entry sch e w) =
     filter (\<lambda>x. \<not> (finishing sch (fst x) \<and> fst x = fst e)) (recording w)"
proof (cases "finishing sch (fst e)")
  case True
  have "filter (\<lambda>x. fst x \<noteq> fst e) (recording w) =
      filter (\<lambda>x. \<not> (finishing sch (fst x) \<and> fst x = fst e)) (recording w)"
    by (rule filter_cong) (use True in auto)
  then show ?thesis
    using True by (simp add: stop_entry_def Let_def release_recording close_entry_frame)
next
  case False
  have "filter (\<lambda>x. \<not> (finishing sch (fst x) \<and> fst x = fst e)) (recording w) = recording w"
    unfolding filter_id_conv using False by auto
  then show ?thesis
    using False by (simp add: stop_entry_def Let_def close_entry_frame)
qed

lemma stop_entry_flags:
  "fd_close_raises (fds (stop_entry sch e w) f) = fd_close_raises (fds w f)"
  "out_close_raises (outs (stop_entry sch e w) out) = out_close_raises (outs w out)"
  by (simp_all add: stop_entry_def Let_def release_flags close_entry_flags)

lemma stop_entry_mono:
  "fd_closed (fds w f) \<Longrightarrow> fd_closed (fds (stop_entry sch e w) f)"
  "\<not> opened (outs w out) \<Longrightarrow> \<not> opened (outs (stop_entry sch e w) out)"
  by (simp_all add: stop_entry_def Let_def release_mono close_entry_mono)

lemma stop_entry_closes:
  "\<not> fd_close_raises (fds w (fst (snd e))) \<Longrightarrow> fd_closed (fds (stop_entry sch e w) (fst (snd e)))"
  "\<not> fd_close_raises (fds w (fst (snd e))) \<Longrightarrow> \<not> out_close_raises (outs w (snd (snd e))) \<Longrightarrow>
   \<not> opened (outs (stop_entry sch e w) (snd (snd e)))"
  by (simp_all add: stop_entry_def Let_def release_mono close_entry_closes)

lemma fold_stop_entry_frame:
  "recorders (fold (stop_entry sch) es w) = recorders w
   \<and> task_store (fold (stop_entry sch) es w) = task_store w
   \<and> gui (fold (stop_entry sch) es w) = gui w
   \<and> timers (fold (stop_entry sch) es w) = timers w
   \<and> lib (fold (stop_entry sch) es w) = lib w"
  by (induction es arbitrary: w) (simp_all add: stop_entry_frame)

lemma fold_stop_entry_recording:
  "recording (fold (stop_entry sch) es w) =
     filter (\<lambda>x. \<not> (finishing sch (fst x) \<and> fst x \<in> fst ` set es)) (recording w)"
proof (induction es arbitrary: w)
  case Nil
  show ?case by simp
next
  case (Cons e es)
  show ?case
    by (simp add: Cons.IH stop_entry_recording) (rule filter_cong, auto)
qed

lemma fold_stop_entry_mono:
  "(fd_closed (fds w f) \<longrightarrow> fd_closed (fds (fold (stop_entry sch) es w) f))
   \<and> (\<not> opened (outs w out) \<longrightarrow> \<not> opened (outs (fold (stop_entry sch) es w) out))"
  by (induction es arbitrary: w) (simp_all add: stop_entry_mono)

lemma fold_stop_entry_closes:
  assumes "e \<in> set es" and "\<not> fd_close_raises (fds w (fst (snd e)))"
  shows "fd_closed (fds (fold (stop_entry sch) es w) (fst (snd e)))
    \<and> (\<not> out_close_raises (outs w (snd (snd e))) \<longrightarrow>
        \<not> opened (outs (fold (stop_entry sch) es w) (snd (snd e))))"
  using assms
proof (induction es arbitrary: w)
  case Nil
  then show ?case by simp
next
  case (Cons x es)
  show ?case
  proof (cases "e = x")
    case True
    then show ?thesis
      using Cons.prems(2) stop_entry_closes [of w e sch]
        fold_stop_entry_mono [of "stop_entry sch e w" "fst (snd e)" sch es "snd (snd e)"]
      by auto
  next
    case False
    then have "e \<in> set es" using Cons.prems(1) by simp
    then show ?thesis
      using Cons.IH [of "stop_entry sch x w"] Cons.prems(2)
      by (simp add: stop_entry_flags)
  qed
qed

lemma cancel_task_props:
  "length (cancel_task i ts) = length ts"
  "j < length ts \<Longrightarrow> task_done (cancel_task i ts ! j) = task_done (ts ! j)"
  "j < length ts \<Longrightarrow> task_cancelled (ts ! j) \<Longrightarrow> task_cancelled (cancel_task i ts ! j)"
  "i < length ts \<Longrightarrow> task_done (ts ! i) \<or> task_cancelled (cancel_task i ts ! i)"
  by (auto simp: cancel_task_def nth_list_update)

lemma cancel_tasks_length: "length (cancel_tasks is ts) = length ts"
  unfolding cancel_tasks_def by (induction "is" arbitrary: ts) (simp_all add: cancel_task_props)

lemma cancel_tasks_mono:
  "j < length ts \<Longrightarrow>
   task_done (cancel_tasks is ts ! j) = task_done (ts ! j)
   \<and> (task_cancelled (ts ! j) \<longrightarrow> task_cancelled (cancel_tasks is ts ! j))"
  unfolding cancel_tasks_def
  by (induction "is" arbitrary: ts) (simp_all add: cancel_task_props)

lemma cancel_tasks_cancels:
  "i \<in> set is \<Longrightarrow> i < length ts \<Longrightarrow>
   task_done (ts ! i) \<or> task_cancelled (cancel_tasks is ts ! i)"
proof (induction "is" arbitrary: ts)
  case Nil
  then show ?case by simp
next
  case (Cons x xs)
  show ?case
  proof (cases "i = x")
    case True
    have a: "task_done (ts ! i) \<or> task_cancelled (cancel_task i ts ! i)"
      using Cons.prems(2) by (rule cancel_task_props(4))
    have "i < length (cancel_task i ts)" using Cons.prems(2) by (simp add: cancel_task_props)
    then have b: "task_cancelled (cancel_task i ts ! i) \<longrightarrow>
        task_cancelled (cancel_tasks xs (cancel_task i ts) ! i)"
      using cancel_tasks_mono [of i "cancel_task i ts" xs] by simp
    have c: "cancel_tasks (x # xs) ts = cancel_tasks xs (cancel_task x ts)"
      by (simp add: cancel_tasks_def)
    show ?thesis using a b unfolding c True by blast
  next
    case False
    then have "i \<in> set xs" using Cons.prems(1) by simp
    then show ?thesis
      using Cons.IH [of "cancel_task x ts"] Cons.prems(2)
      by (auto simp: cancel_tasks_def cancel_task_props)
  qed
qed

lemma stop_when_running:
  assumes run: "running (recorders w self)"
  shows "recording (stop sch self w) = filter (\<lambda>x. \<not> finishing sch (fst x)) (recording w)"
    and "\<not> running (recorders (stop sch self w) self)"
    and "tasks (recorders (stop sch self w) self) = []"
    and "\<And>j. j \<noteq> self \<Longrightarrow> recorders (stop sch self w) j = recorders w j"
    and "gui (stop sch self w) = gui w"
    and "\<And>e. e \<in> set (recording w) \<Longrightarrow> \<not> fd_close_raises (fds w (fst (snd e))) \<Longrightarrow>
          fd_closed (fds (stop sch self w) (fst (snd e)))
          \<and> (\<not> out_close_raises (outs w (snd (snd e))) \<longrightarrow>
              \<not> opened (outs (stop sch self w) (snd (snd e))))"
    and "\<And>i. cancel_in_time sch \<Longrightarrow> loop_is_running (recorders w self) \<Longrightarrow>
          i \<in> set (tasks (recorders w self)) \<Longrightarrow> i < length (task_store w) \<Longrightarrow>
          task_done (task_store w ! i) \<or> task_cancelled (task_store (stop sch self w) ! i)"
    and "timers (stop sch self w) = timers w"
    and "lib (stop sch self w) = lib w"
    and "\<And>f. fd_closed (fds w f) \<Longrightarrow> fd_closed (fds (stop sch self w) f)"
    and "\<And>out. \<not> opened (outs w out) \<Longrightarrow> \<not> opened (outs (stop sch self w) out)"
proof -
  define r where "r = recorders w self"
  define w2 where "w2 =
    (if tasks r \<noteq> [] then
       (if loop_is_running r then
          (set_recorder self (r\<lparr>running := False, tasks := []\<rparr>)
             (set_recorder self (r\<lparr>running := False\<rparr>) w))
            \<lparr>task_store := (if cancel_in_time sch then cancel_tasks (tasks r) (task_store w)
                            else task_store w)\<rparr>
        else set_recorder self (r\<lparr>running := False, tasks := []\<rparr>)
               (set_recorder self (r\<lparr>running := False\<rparr>) w))
     else set_recorder self (r\<lparr>running := False\<rparr>) w)"
  define w3 where "w3 = fold (stop_entry sch) (recording w2) w2"
  have st: "stop sch self w =
      (if loop_is_running r
       then set_recorder self ((recorders w3 self)\<lparr>loop :=
              map_option (\<lambda>l. l\<lparr>loop_stop_requested := True\<rparr>) (loop (recorders w3 self))\<rparr>) w3
       else w3)"
    using run by (simp add: stop_def Let_def r_def w2_def w3_def set_recorder_def)
  have w2: "recording w2 = recording w" "fds w2 = fds w" "outs w2 = outs w"
    "\<not> running (recorders w2 self)" "tasks (recorders w2 self) = []" "gui w2 = gui w"
    "\<And>j. j \<noteq> self \<Longrightarrow> recorders w2 j = recorders w j"
    "timers w2 = timers w" "lib w2 = lib w"
    by (auto simp: w2_def set_recorder_def r_def)
  have w2t: "task_store w2 =
      (if tasks r \<noteq> [] \<and> loop_is_running r \<and> cancel_in_time sch
       then cancel_tasks (tasks r) (task_store w) else task_store w)"
    by (auto simp: w2_def set_recorder_def)
  note fr = fold_stop_entry_frame [of sch "recording w2" w2, folded w3_def]
  have rec3: "recording w3 = filter (\<lambda>x. \<not> finishing sch (fst x)) (recording w)"
    unfolding w3_def fold_stop_entry_recording w2(1) by (rule filter_cong) auto
  show "recording (stop sch self w) = filter (\<lambda>x. \<not> finishing sch (fst x)) (recording w)"
    using rec3 by (simp add: st set_recorder_def)
  show "\<not> running (recorders (stop sch self w) self)"
    using fr w2 by (simp add: st set_recorder_def)
  show "tasks (recorders (stop sch self w) self) = []"
    using fr w2 by (simp add: st set_recorder_def)
  show "recorders (stop sch self w) j = recorders w j" if "j \<noteq> self" for j
    using fr w2 that by (simp add: st set_recorder_def)
  show "gui (stop sch self w) = gui w"
    using fr w2 by (simp add: st set_recorder_def)
  show "timers (stop sch self w) = timers w"
    using fr w2 by (simp add: st set_recorder_def)
  show "lib (stop sch self w) = lib w"
    using fr w2 by (simp add: st set_recorder_def)
  show "fd_closed (fds (stop sch self w) f)" if "fd_closed (fds w f)" for f
    using fold_stop_entry_mono [of w2 f sch "recording w2", folded w3_def] that w2
    by (simp add: st set_recorder_def)
  show "\<not> opened (outs (stop sch self w) out)" if "\<not> opened (outs w out)" for out
    using fold_stop_entry_mono [of w2 _ sch "recording w2" out, folded w3_def] that w2
    by (simp add: st set_recorder_def)
  show "fd_closed (fds (stop sch self w) (fst (snd e)))
      \<and> (\<not> out_close_raises (outs w (snd (snd e))) \<longrightarrow>
          \<not> opened (outs (stop sch self w) (snd (snd e))))"
    if e: "e \<in> set (recording w)" and nf: "\<not> fd_close_raises (fds w (fst (snd e)))" for e
  proof -
    have "fd_closed (fds w3 (fst (snd e)))
      \<and> (\<not> out_close_raises (outs w2 (snd (snd e))) \<longrightarrow> \<not> opened (outs w3 (snd (snd e))))"
      unfolding w3_def by (rule fold_stop_entry_closes) (use e nf w2 in simp_all)
    then show ?thesis
      using w2 by (simp add: st set_recorder_def)
  qed
  show "task_done (task_store w ! i) \<or> task_cancelled (task_store (stop sch self w) ! i)"
    if "cancel_in_time sch" "loop_is_running (recorders w self)"
      and i: "i \<in> set (tasks (recorders w self))" "i < length (task_store w)" for i
  proof -
    from i have ne: "tasks r \<noteq> []" by (auto simp: r_def)
    have "task_store (stop sch self w) = task_store w2"
      using fr by (simp add: st set_recorder_def)
    moreover have "task_store w2 = cancel_tasks (tasks r) (task_store w)"
      using w2t ne that(1,2) by (simp add: r_def)
    ultimately show ?thesis
      using cancel_tasks_cancels [of i "tasks r" "task_store w"] i by (simp add: r_def)
  qed
qed


lemmas stop_defs = stop_def stop_entry_def loop_is_running_def cancel_tasks_def cancel_task_def
  close_entry_def close_fd_def close_output_def try_close_fd_def try_close_output_def

lemmas capture_defs = capturing_def at_run_def quiet_env_def open_stream_def FileOutput_def
  output_open_def register_def unregister_def registered_def run_record_def stream_writer_def
  kwai_run_def runner_run_def release_def cleanup_on_failure_def caught_inside_def
  timeout_handler_def kwai_timeout_callback_def gui_timeout_callback_def timer_start_def
  timer_fire_def timer_cancel_def record_timeout_def timer_armed_def truthy_int_def
  truthy_str_def is_Exception_def





section \<open>Properties of captures\<close>

lemma timer_cancel_frame:
  "recorders (timer_cancel t w) = recorders w"
  "task_store (timer_cancel t w) = task_store w"
  "gui (timer_cancel t w) = gui w"
  "fds (timer_cancel t w) = fds w"
  "outs (timer_cancel t w) = outs w"
  "recording (timer_cancel t w) = recording w"
  "lib (timer_cancel t w) = lib w"
  by (auto simp: timer_cancel_def split: timer_state.splits)

lemma timer_cancel_state:
  "timers (timer_cancel t w) t = (case timers w t of Armed n \<Rightarrow> Cancelled | s \<Rightarrow> s)"
  by (auto simp: timer_cancel_def split: timer_state.splits)

lemma capturing_frame:
  "timers (capturing u env w) = timers w"
  "recorders (capturing u env w) = recorders w"
  "task_store (capturing u env w) = task_store w"
  "gui (capturing u env w) = gui w"
  "lib (capturing u env w) = lib w"
  by (auto simp: capturing_def open_stream_def FileOutput_def output_open_def register_def
      split: sum.splits)

lemma runner_run_frame:
  "recorders (fst (runner_run env f th w)) = recorders (th (others env w))"
  "task_store (fst (runner_run env f th w)) = task_store (th (others env w))"
  "gui (fst (runner_run env f th w)) = gui (th (others env w))"
  "outs (fst (runner_run env f th w)) = outs (th (others env w))"
  "recording (fst (runner_run env f th w)) = recording (th (others env w))"
  "timers (fst (runner_run env f th w)) = timers (th (others env w))"
  "lib (fst (runner_run env f th w)) = lib (th (others env w))"
  "fd_closed (fds (th (others env w)) g) \<Longrightarrow> fd_closed (fds (fst (runner_run env f th w)) g)"
  "\<not> fd_close_raises (fds (th (others env w)) f) \<Longrightarrow> fd_closed (fds (fst (runner_run env f th w)) f)"
  by (auto simp: runner_run_def Let_def close_fd_def)

lemma runner_run_result:
  "\<not> fd_close_raises (fds (th (others env w)) f) \<Longrightarrow>
   snd (runner_run env f th w) = run_raises env"
  by (auto simp: runner_run_def Let_def close_fd_def)

text \<open>\<open>run_record\<close> on the path where stream and output are opened.\<close>

lemma run_record_opened:
  assumes "stream_ok env" "mkdir_raises env = None" "open_stream_result env = Inr f"
    "output_open_raises env = None"
  shows "run_record (Some i) u d du cb env w =
     (release True f (new_output env) u
        ((if timer_armed (record_timeout d du) then timer_cancel (new_timer env) else (\<lambda>s. s))
           (fst (runner_run env f
              (\<lambda>s. if timer_armed (record_timeout d du) \<and> timer_fires env
                   then timeout_handler (Some i) f cb (timer_fire (new_timer env) s) else s)
              (at_run d du u env w)))),
      caught_inside (snd (runner_run env f
              (\<lambda>s. if timer_armed (record_timeout d du) \<and> timer_fires env
                   then timeout_handler (Some i) f cb (timer_fire (new_timer env) s) else s)
              (at_run d du u env w))))"
  using assms by (simp add: run_record_def Let_def)

lemma at_run_timers:
  "timers (at_run d du u env w) =
     (if timer_armed (record_timeout d du)
      then (timers w)(new_timer env := Armed (the (record_timeout d du))) else timers w)"
  by (simp add: at_run_def Let_def timer_start_def capturing_frame)

lemma timeout_handler_None_timers:
  "timers (timeout_handler sid f None w) = timers w"
  by (auto simp: timeout_handler_def Let_def close_fd_def)

lemma run_record_unarmed:
  assumes "\<not> timer_armed (record_timeout d du)"
  shows "run_record sid u d du cb env w = run_record sid u None None cb env w"
proof -
  have b: "\<not> timer_armed (record_timeout None None)"
    by (simp add: record_timeout_def timer_armed_def truthy_int_def)
  have a: "at_run d du u env w = at_run None None u env w"
    using assms b by (simp add: at_run_def Let_def)
  show ?thesis
    unfolding run_record_def Let_def a using assms b
    by (simp split: option.splits sum.splits)
qed

lemma run_record_timer_end:
  assumes "stream_ok env" "mkdir_raises env = None" "open_stream_result env = Inr f"
    "output_open_raises env = None" "others env = (\<lambda>w. w)"
  shows "timers (fst (run_record (Some i) u d du None env w)) (new_timer env) =
     (if timer_armed (record_timeout d du)
      then (if timer_fires env then Fired else Cancelled)
      else timers w (new_timer env))"
  unfolding run_record_opened [OF assms(1-4)]
  by (simp add: release_frame timer_cancel_state timer_cancel_frame runner_run_frame assms(5)
      timeout_handler_None_timers timer_fire_def at_run_timers)

text \<open>
  Claim C10.  The conversion of \<open>duration\<close> and \<open>duration_unit\<close> into the timer's timeout is
  total and falls back to no limit: with a set (truthy) duration and the unit \<open>seconds\<close>,
  \<open>minutes\<close> or \<open>hours\<close> the timeout is the duration, sixty times it, or 3600 times it, and a
  timer is armed; for every other unit, and whenever duration or unit is not set, the timeout is
  \<open>None\<close> and no timer is armed.  So it is in the capture: when \<open>run_record\<close> calls
  \<open>stream_runner.run\<close>, its timer is started with just that timeout in the three cases, and no
  timer is touched otherwise; a capture with any other unit, or without duration or unit, runs
  as a capture without duration limit does; and the timer of a capture that got that far is
  cancelled or has gone off when \<open>run_record\<close> returns.
\<close>

theorem record_timeout_total:
  "record_timeout d u =
     (if truthy_int d \<and> u = Some ''seconds'' then d
      else if truthy_int d \<and> u = Some ''minutes'' then Some (the d * 60)
      else if truthy_int d \<and> u = Some ''hours'' then Some (the d * 3600)
      else None)
   \<and> timer_armed (record_timeout d u) =
     (truthy_int d \<and> (u = Some ''seconds'' \<or> u = Some ''minutes'' \<or> u = Some ''hours''))
   \<and> timers (at_run d u url env w) (new_timer env) =
     (if truthy_int d \<and> u = Some ''seconds'' then Armed (the d)
      else if truthy_int d \<and> u = Some ''minutes'' then Armed (the d * 60)
      else if truthy_int d \<and> u = Some ''hours'' then Armed (the d * 3600)
      else timers w (new_timer env))
   \<and> (\<forall>t. t \<noteq> new_timer env \<longrightarrow> timers (at_run d u url env w) t = timers w t)
   \<and> (\<not> (truthy_int d \<and> (u = Some ''seconds'' \<or> u = Some ''minutes'' \<or> u = Some ''hours'')) \<longrightarrow>
        run_record sid url d u cb env w = run_record sid url None None cb env w)
   \<and> (stream_ok env \<and> mkdir_raises env = None \<and> open_stream_result env = Inr f
        \<and> output_open_raises env = None \<and> others env = (\<lambda>w. w) \<longrightarrow>
        timers (fst (run_record (Some i) url d u None env w)) (new_timer env) =
          (if truthy_int d \<and> (u = Some ''seconds'' \<or> u = Some ''minutes'' \<or> u = Some ''hours'')
           then (if timer_fires env then Fired else Cancelled)
           else timers w (new_timer env)))"
proof -
  have a: "record_timeout d u =
     (if truthy_int d \<and> u = Some ''seconds'' then d
      else if truthy_int d \<and> u = Some ''minutes'' then Some (the d * 60)
      else if truthy_int d \<and> u = Some ''hours'' then Some (the d * 3600)
      else None)"
    by (auto simp: record_timeout_def truthy_int_def truthy_str_def split: option.splits)
  have b: "timer_armed (record_timeout d u) =
     (truthy_int d \<and> (u = Some ''seconds'' \<or> u = Some ''minutes'' \<or> u = Some ''hours''))"
    by (auto simp: record_timeout_def timer_armed_def truthy_int_def truthy_str_def
        split: option.splits)
  have c: "timers (at_run d u url env w) (new_timer env) =
     (if truthy_int d \<and> u = Some ''seconds'' then Armed (the d)
      else if truthy_int d \<and> u = Some ''minutes'' then Armed (the d * 60)
      else if truthy_int d \<and> u = Some ''hours'' then Armed (the d * 3600)
      else timers w (new_timer env))"
  proof -
    have v: "truthy_int d \<Longrightarrow> the (record_timeout d (Some ''seconds'')) = the d"
      "truthy_int d \<Longrightarrow> the (record_timeout d (Some ''minutes'')) = the d * 60"
      "truthy_int d \<Longrightarrow> the (record_timeout d (Some ''hours'')) = the d * 3600"
      by (simp_all add: record_timeout_def truthy_str_def)
    show ?thesis
      unfolding at_run_timers b using v by auto
  qed
  have d: "\<forall>t. t \<noteq> new_timer env \<longrightarrow> timers (at_run d u url env w) t = timers w t"
    by (simp add: at_run_timers)
  have e: "\<not> (truthy_int d \<and> (u = Some ''seconds'' \<or> u = Some ''minutes'' \<or> u = Some ''hours'')) \<longrightarrow>
        run_record sid url d u cb env w = run_record sid url None None cb env w"
    using run_record_unarmed [of d u sid url cb env w] unfolding b by blast
  have g: "stream_ok env \<and> mkdir_raises env = None \<and> open_stream_result env = Inr f
        \<and> output_open_raises env = None \<and> others env = (\<lambda>w. w) \<longrightarrow>
        timers (fst (run_record (Some i) url d u None env w)) (new_timer env) =
          (if truthy_int d \<and> (u = Some ''seconds'' \<or> u = Some ''minutes'' \<or> u = Some ''hours'')
           then (if timer_fires env then Fired else Cancelled)
           else timers w (new_timer env))"
    using run_record_timer_end [of env f i url d u w] unfolding b by blast
  show ?thesis using a b c d e g by blast
qed

theorem record_timeout_total_witness:
  "record_timeout (Some 2) (Some ''minutes'') = Some 120
   \<and> timer_armed (record_timeout (Some 2) (Some ''minutes''))
   \<and> record_timeout (Some 2) (Some ''days'') = None
   \<and> \<not> timer_armed (record_timeout None (Some ''hours''))
   \<and> timers (at_run (Some 2) (Some ''minutes'') ''u'' (quiet_env 0)
        (initial_world plain_library (\<lambda>_. config_of []))) 0 = Armed 120
   \<and> timers (at_run (Some 2) (Some ''days'') ''u'' (quiet_env 0)
        (initial_world plain_library (\<lambda>_. config_of []))) 0 = NoTimer
   \<and> run_record (Some 1) ''u'' (Some 2) (Some ''days'') None (quiet_env 0)
        (initial_world plain_library (\<lambda>_. config_of [])) =
      run_record (Some 1) ''u'' None None None (quiet_env 0)
        (initial_world plain_library (\<lambda>_. config_of []))
   \<and> timers (fst (run_record (Some 1) ''u'' (Some 2) (Some ''minutes'') None (quiet_env 0)
        (initial_world plain_library (\<lambda>_. config_of [])))) 0 = Cancelled
   \<and> timers (fst (run_record (Some 1) ''u'' (Some 2) (Some ''minutes'') None
        ((quiet_env 0)\<lparr>timer_fires := True\<rparr>)
        (initial_world plain_library (\<lambda>_. config_of [])))) 0 = Fired
   \<and> timers (fst (run_record (Some 1) ''u'' (Some 2) (Some ''days'') None (quiet_env 0)
        (initial_world plain_library (\<lambda>_. config_of [])))) 0 = NoTimer"
proof -
  let ?W = "initial_world plain_library (\<lambda>_. config_of [])"
  have q: "stream_ok (quiet_env 0)" "mkdir_raises (quiet_env 0) = None"
    "open_stream_result (quiet_env 0) = Inr 0" "output_open_raises (quiet_env 0) = None"
    "others (quiet_env 0) = (\<lambda>w. w)" "new_timer (quiet_env 0) = 0"
    "\<not> timer_fires (quiet_env 0)"
    by (simp_all add: quiet_env_def)
  have w: "timers ?W 0 = NoTimer" by (simp add: initial_world_def)
  note m = record_timeout_total [where d = "Some 2" and u = "Some ''minutes''" and url = "''u''"
      and env = "quiet_env 0" and w = ?W and sid = "Some 1" and cb = None and f = 0 and i = 1]
  note mf = record_timeout_total [where d = "Some 2" and u = "Some ''minutes''" and url = "''u''"
      and env = "(quiet_env 0)\<lparr>timer_fires := True\<rparr>" and w = ?W
      and sid = "Some 1" and cb = None and f = 0 and i = 1]
  note dd = record_timeout_total [where d = "Some 2" and u = "Some ''days''" and url = "''u''"
      and env = "quiet_env 0" and w = ?W and sid = "Some 1" and cb = None and f = 0 and i = 1]
  note h = record_timeout_total [where d = None and u = "Some ''hours''" and url = "''u''"
      and env = "quiet_env 0" and w = ?W and sid = "Some 1" and cb = None and f = 0 and i = 1]
  have 1: "record_timeout (Some 2) (Some ''minutes'') = Some 120"
    "timer_armed (record_timeout (Some 2) (Some ''minutes''))"
    "timers (at_run (Some 2) (Some ''minutes'') ''u'' (quiet_env 0) ?W) 0 = Armed 120"
    "timers (fst (run_record (Some 1) ''u'' (Some 2) (Some ''minutes'') None (quiet_env 0) ?W)) 0
       = Cancelled"
    using m by (simp_all add: truthy_int_def timer_armed_def q w)
  have 2: "timers (fst (run_record (Some 1) ''u'' (Some 2) (Some ''minutes'') None
        ((quiet_env 0)\<lparr>timer_fires := True\<rparr>) ?W)) 0 = Fired"
    using mf by (simp add: truthy_int_def q w)
  have 3: "record_timeout (Some 2) (Some ''days'') = None"
    "timers (at_run (Some 2) (Some ''days'') ''u'' (quiet_env 0) ?W) 0 = NoTimer"
    "run_record (Some 1) ''u'' (Some 2) (Some ''days'') None (quiet_env 0) ?W =
      run_record (Some 1) ''u'' None None None (quiet_env 0) ?W"
    "timers (fst (run_record (Some 1) ''u'' (Some 2) (Some ''days'') None (quiet_env 0) ?W)) 0
       = NoTimer"
    using dd by (auto simp: truthy_int_def q w)
  have 4: "\<not> timer_armed (record_timeout None (Some ''hours''))"
    using h by (auto simp: truthy_int_def)
  show ?thesis using 1 2 3 4 by simp
qed

lemma release_unregisters: "\<not> registered u (release b f out u w)"
  by (auto simp: registered_def release_recording map_of_eq_None_iff)

lemma release_closes_stream:
  "\<not> fd_close_raises (fds w f) \<Longrightarrow> fd_closed (fds (release b f out u w) f)"
  by (auto simp: release_def Let_def try_close_output_def try_close_fd_def close_output_def
      close_fd_def log_event_def unregister_def)

lemma release_output_without_closed_attr:
  "closed_attr (outs w out) = None \<Longrightarrow> outs (release b f out u w) out = outs w out"
  by (auto simp: release_def Let_def try_close_output_def try_close_fd_def close_output_def
      close_fd_def log_event_def unregister_def)

text \<open>
  What \<open>run_record\<close> does release once stream and output are opened: the entry of the URL is
  deleted, and the stream is closed by the time the call returns.  The output is not: an output
  object without attribute \<open>closed\<close> is left opened.
\<close>

lemma run_record_releases:
  assumes "stream_ok env" "mkdir_raises env = None" "open_stream_result env = Inr f"
    "output_open_raises env = None"
  shows "\<not> registered u (fst (run_record (Some i) u d du cb env w))"
  unfolding run_record_opened [OF assms] by (simp add: release_unregisters)

lemma run_record_output_left_open:
  assumes "stream_ok env" "mkdir_raises env = None" "open_stream_result env = Inr f"
    "output_open_raises env = None" "others env = (\<lambda>w. w)" "new_output_closed_attr env = None"
  shows "opened (outs (fst (run_record (Some i) u d du None env w)) (new_output env))"
proof -
  let ?th = "\<lambda>s. if timer_armed (record_timeout d du) \<and> timer_fires env
       then timeout_handler (Some i) f None (timer_fire (new_timer env) s) else s"
  let ?a = "at_run d du u env w"
  have o: "outs ?a (new_output env) =
      \<lparr>opened = True, closed_attr = None, out_close_raises = new_output_close_raises env\<rparr>"
    using assms(3,6)
    by (simp add: at_run_def Let_def capturing_def timer_start_def output_open_def register_def
        FileOutput_def open_stream_def)
  have h: "outs (timeout_handler (Some i) f None s) = outs s"
    "outs (timer_fire (new_timer env) s) = outs s" for s
    by (auto simp: timeout_handler_def timer_fire_def close_fd_def)
  have r: "outs (fst (runner_run env f th ?a)) (new_output env) =
      \<lparr>opened = True, closed_attr = None, out_close_raises = new_output_close_raises env\<rparr>"
    if "\<And>s. outs (th s) = outs s" for th
    by (simp add: runner_run_frame assms(5) that o)
  show ?thesis
    unfolding run_record_opened [OF assms(1-4)]
    by (simp add: release_output_without_closed_attr timer_cancel_frame r h)
qed

text \<open>
  Claim C1 fails.  A capture through \<open>stream_writer\<close> whose stream ends by itself returns
  \<open>True\<close> with stream and output closed, but the entry of its URL is still in the registry;
  and when \<open>output.open()\<close> raises, \<open>stream_writer\<close> returns with the stream it has opened
  still open.  A capture through \<open>run_record\<close> (of a recorder with a user) deletes the entry,
  closes the stream and cancels the timer, whether the stream ends by itself, an exception
  ends the capture or the duration is over, but leaves the output opened when the output
  object has no attribute \<open>closed\<close>, as in \<open>quiet_env\<close>: line 546 then reads \<open>True\<close> and skips
  \<open>output.close()\<close>.
\<close>

theorem stream_writer_leaves_registered:
  "stream_writer ''u'' (quiet_env 0) (initial_world l cfgs) =
     (fst (stream_writer ''u'' (quiet_env 0) (initial_world l cfgs)), Inr True)
   \<and> recording (fst (stream_writer ''u'' (quiet_env 0) (initial_world l cfgs))) = [(''u'', 0, 0)]
   \<and> fd_closed (fds (fst (stream_writer ''u'' (quiet_env 0) (initial_world l cfgs))) 0)
   \<and> \<not> opened (outs (fst (stream_writer ''u'' (quiet_env 0) (initial_world l cfgs))) 0)
   \<and> snd (stream_writer ''u'' ((quiet_env 0)\<lparr>output_open_raises := Some OtherException\<rparr>)
        (initial_world l cfgs)) = Inr False
   \<and> \<not> fd_closed (fds (fst (stream_writer ''u''
        ((quiet_env 0)\<lparr>output_open_raises := Some OtherException\<rparr>) (initial_world l cfgs))) 0)
   \<and> snd (run_record (Some 1) ''u'' None None None (quiet_env 0) (initial_world l cfgs)) = None
   \<and> recording (fst (run_record (Some 1) ''u'' None None None (quiet_env 0)
        (initial_world l cfgs))) = []
   \<and> fd_closed (fds (fst (run_record (Some 1) ''u'' None None None (quiet_env 0)
        (initial_world l cfgs))) 0)
   \<and> opened (outs (fst (run_record (Some 1) ''u'' None None None (quiet_env 0)
        (initial_world l cfgs))) 0)
   \<and> recording (fst (run_record (Some 1) ''u'' None None None
        ((quiet_env 0)\<lparr>run_raises := Some OtherException\<rparr>) (initial_world l cfgs))) = []
   \<and> fd_closed (fds (fst (run_record (Some 1) ''u'' None None None
        ((quiet_env 0)\<lparr>run_raises := Some OtherException\<rparr>) (initial_world l cfgs))) 0)
   \<and> opened (outs (fst (run_record (Some 1) ''u'' None None None
        ((quiet_env 0)\<lparr>run_raises := Some OtherException\<rparr>) (initial_world l cfgs))) 0)
   \<and> recording (fst (run_record (Some 1) ''u'' (Some 2) (Some ''seconds'') None
        ((quiet_env 0)\<lparr>timer_fires := True\<rparr>) (initial_world l cfgs))) = []
   \<and> fd_closed (fds (fst (run_record (Some 1) ''u'' (Some 2) (Some ''seconds'') None
        ((quiet_env 0)\<lparr>timer_fires := True\<rparr>) (initial_world l cfgs))) 0)
   \<and> timers (fst (run_record (Some 1) ''u'' (Some 2) (Some ''seconds'') None
        (quiet_env 0) (initial_world l cfgs))) 0 = Cancelled
   \<and> opened (outs (fst (run_record (Some 1) ''u'' (Some 2) (Some ''seconds'') None
        ((quiet_env 0)\<lparr>timer_fires := True\<rparr>) (initial_world l cfgs))) 0)"
  by (simp add: scenario_defs stop_defs capture_defs)

text \<open>
  Claim C3 fails.  While a capture of the URL \<open>u\<close> is registered with the handles \<open>(1, 1)\<close>, the
  guard of \<open>Kwai.run\<close> (which looks the empty URL up) lets a second capture of \<open>u\<close> through; as
  soon as the second capture runs, the entry holds its handles \<open>(2, 2)\<close>; when it ends it deletes
  the entry, though the first stream is still open; and a second attempt whose \<open>open_stream\<close>
  raises closes the first capture's stream and deletes its entry.
\<close>

theorem second_registration_replaces_first:
  "map_of (recording (capturing ''u'' (quiet_env 1) (initial_world l cfgs))) ''u'' = Some (1, 1)
   \<and> \<not> registered [] (capturing ''u'' (quiet_env 1) (initial_world l cfgs))
   \<and> map_of (recording (capturing ''u'' (quiet_env 2)
        (capturing ''u'' (quiet_env 1) (initial_world l cfgs)))) ''u'' = Some (2, 2)
   \<and> kwai_run None user_B (Live ''u'') (quiet_env 2)
        (capturing ''u'' (quiet_env 1) (initial_world l cfgs)) =
      (fst (kwai_run None user_B (Live ''u'') (quiet_env 2)
        (capturing ''u'' (quiet_env 1) (initial_world l cfgs))), None)
   \<and> recording (fst (kwai_run None user_B (Live ''u'') (quiet_env 2)
        (capturing ''u'' (quiet_env 1) (initial_world l cfgs)))) = []
   \<and> \<not> fd_closed (fds (fst (kwai_run None user_B (Live ''u'') (quiet_env 2)
        (capturing ''u'' (quiet_env 1) (initial_world l cfgs)))) 1)
   \<and> recording (fst (kwai_run None user_B (Live ''u'')
        ((quiet_env 2)\<lparr>open_stream_result := Inl OtherException\<rparr>)
        (capturing ''u'' (quiet_env 1) (initial_world l cfgs)))) = []
   \<and> fd_closed (fds (fst (kwai_run None user_B (Live ''u'')
        ((quiet_env 2)\<lparr>open_stream_result := Inl OtherException\<rparr>)
        (capturing ''u'' (quiet_env 1) (initial_world l cfgs)))) 1)"
  by (simp add: scenario_defs stop_defs capture_defs log_event_def)

section \<open>The duration timer and the other users\<close>

lemma global_and_single_state:
  "recording global_and_single = [(''b'', 2, 2)]"
  "fds global_and_single 2 = \<lparr>fd_closed = False, fd_close_raises = False\<rparr>"
  "outs global_and_single 2 = \<lparr>opened = True, closed_attr = None, out_close_raises = False\<rparr>"
  "gui global_and_single = \<lparr>gui_recorder = Some 0, gui_recording = True,
      user_recorders = [(1, 2)], user_recording_status = [(1, True)]\<rparr>"
  "task_store global_and_single =
     [\<lparr>task_user = user_B, task_done = False, task_cancelled = False\<rparr>,
      \<lparr>task_user = user_A, task_done = False, task_cancelled = False\<rparr>]"
  "recorders global_and_single 0 = \<lparr>config = config_of [user_B], running = True, tasks = [0],
      loop = Some \<lparr>loop_running = True, loop_stop_requested = False\<rparr>\<rparr>"
  "recorders global_and_single 2 = \<lparr>config = config_of [user_A], running = True, tasks = [1],
      loop = Some \<lparr>loop_running = True, loop_stop_requested = False\<rparr>\<rparr>"
proof -
  define w0 where "w0 = initial_world plain_library
      (\<lambda>i. if i = 0 then config_of [user_B] else config_of [user_A])"
  define w1 where "w1 = fst (start_and_run none_finish 0 w0)"
  define w2 where "w2 = w1\<lparr>gui := (gui w1)\<lparr>gui_recorder := Some 0, gui_recording := True\<rparr>\<rparr>"
  define w3 where "w3 = fst (start_and_run none_finish 2 w2)"
  define w4 where "w4 = w3\<lparr>gui := (gui w3)\<lparr>user_recorders := [(1, 2)],
                   user_recording_status := [(1, True)]\<rparr>\<rparr>"
  have gs: "global_and_single = capturing ''b'' (quiet_env 2) w4"
    by (simp add: global_and_single_def Let_def w0_def w1_def w2_def w3_def w4_def)
  have sp: "spawned plain_library (config_of [user_B]) [user_B] = [user_B]"
    "spawned plain_library (config_of [user_A]) [user_A] = [user_A]"
    by (simp_all add: spawned_def instantiate_def instantiate_logged_def module_globals_def
        config_of_def user_A_def user_B_def plain_library_def)
  have i0: "\<not> running (recorders w0 0)" "users (config (recorders w0 0)) = Some [user_B]"
    by (simp_all add: w0_def initial_world_def idle_recorder_def config_of_def)
  note s1 = start_and_run_fresh [OF i0, of none_finish, folded w1_def]
  have p0: "recorders w0 0 = idle_recorder (config_of [user_B])"
    "recorders w0 2 = idle_recorder (config_of [user_A])" "task_store w0 = []"
    "recording w0 = []" "gui w0 = \<lparr>gui_recorder = None, gui_recording = False, user_recorders = [],
              user_recording_status = []\<rparr>" "lib w0 = plain_library"
    by (simp_all add: w0_def initial_world_def)
  have p1: "recorders w1 0 = \<lparr>config = config_of [user_B], running = True, tasks = [0],
      loop = Some \<lparr>loop_running = True, loop_stop_requested = False\<rparr>\<rparr>"
    "recorders w1 2 = idle_recorder (config_of [user_A])"
    "task_store w1 = [\<lparr>task_user = user_B, task_done = False, task_cancelled = False\<rparr>]"
    "recording w1 = []"
    "gui w1 = \<lparr>gui_recorder = None, gui_recording = False, user_recorders = [],
              user_recording_status = []\<rparr>"
    "lib w1 = plain_library"
    using s1 by (simp_all add: p0 sp idle_recorder_def)
  have p2: "recorders w2 = recorders w1" "task_store w2 = task_store w1"
    "recording w2 = recording w1" "fds w2 = fds w1" "outs w2 = outs w1"
    "gui w2 = \<lparr>gui_recorder = Some 0, gui_recording = True, user_recorders = [],
              user_recording_status = []\<rparr>"
    "lib w2 = plain_library"
    by (simp_all add: w2_def p1)
  have i2: "\<not> running (recorders w2 2)" "users (config (recorders w2 2)) = Some [user_A]"
    by (simp_all add: p2 p1 idle_recorder_def config_of_def)
  note s3 = start_and_run_fresh [OF i2, of none_finish, folded w3_def]
  have p3: "recorders w3 0 = \<lparr>config = config_of [user_B], running = True, tasks = [0],
      loop = Some \<lparr>loop_running = True, loop_stop_requested = False\<rparr>\<rparr>"
    "recorders w3 2 = \<lparr>config = config_of [user_A], running = True, tasks = [1],
      loop = Some \<lparr>loop_running = True, loop_stop_requested = False\<rparr>\<rparr>"
    "task_store w3 = [\<lparr>task_user = user_B, task_done = False, task_cancelled = False\<rparr>,
      \<lparr>task_user = user_A, task_done = False, task_cancelled = False\<rparr>]"
    "recording w3 = []"
    "gui w3 = \<lparr>gui_recorder = Some 0, gui_recording = True, user_recorders = [],
              user_recording_status = []\<rparr>"
    using s3 by (simp_all add: p2 p1 sp idle_recorder_def)
  show "recording global_and_single = [(''b'', 2, 2)]"
  "fds global_and_single 2 = \<lparr>fd_closed = False, fd_close_raises = False\<rparr>"
  "outs global_and_single 2 = \<lparr>opened = True, closed_attr = None, out_close_raises = False\<rparr>"
  "gui global_and_single = \<lparr>gui_recorder = Some 0, gui_recording = True,
      user_recorders = [(1, 2)], user_recording_status = [(1, True)]\<rparr>"
  "task_store global_and_single =
     [\<lparr>task_user = user_B, task_done = False, task_cancelled = False\<rparr>,
      \<lparr>task_user = user_A, task_done = False, task_cancelled = False\<rparr>]"
  "recorders global_and_single 0 = \<lparr>config = config_of [user_B], running = True, tasks = [0],
      loop = Some \<lparr>loop_running = True, loop_stop_requested = False\<rparr>\<rparr>"
  "recorders global_and_single 2 = \<lparr>config = config_of [user_A], running = True, tasks = [1],
      loop = Some \<lparr>loop_running = True, loop_stop_requested = False\<rparr>\<rparr>"
    unfolding gs
    by (simp_all add: capturing_def quiet_env_def open_stream_def FileOutput_def output_open_def
        register_def w4_def p3)
qed

lemma kwai_run_live:
  assumes "\<not> registered [] w" "u \<noteq> []"
  shows "fst (kwai_run gui_cb usr (Live u) env w) =
     fst (run_record (Some (user_id usr)) u (user_duration usr) (user_duration_unit usr)
            (Some (kwai_timeout_callback gui_cb (user_id usr))) env w)"
  using assms by (simp add: kwai_run_def split: prod.splits)

lemma timeout_handler_gui:
  assumes "\<not> fd_closed (fds w f)" "\<not> fd_close_raises (fds w f)"
  shows "timeout_handler (Some i) f (Some (kwai_timeout_callback (Some cb) i)) w =
     cb i (w\<lparr>fds := (fds w)(f := (fds w f)\<lparr>fd_closed := True\<rparr>)\<rparr>)"
  using assms by (simp add: timeout_handler_def kwai_timeout_callback_def close_fd_def)

lemma gui_timeout_callback_stop:
  assumes "gui_recorder (gui w) = Some g"
  shows "fds (gui_timeout_callback p i w) = fds (stop p g w)"
    "outs (gui_timeout_callback p i w) = outs (stop p g w)"
    "recorders (gui_timeout_callback p i w) = recorders (stop p g w)"
    "task_store (gui_timeout_callback p i w) = task_store (stop p g w)"
    "recording (gui_timeout_callback p i w) = recording (stop p g w)"
  using assms by (simp_all add: gui_timeout_callback_def Let_def)

text \<open>
  Claim C4 fails.  In the state \<open>global_and_single\<close> the capture of \<open>user_A\<close>, limited to two
  seconds, starts and its timer goes off.  Before, the stream and output of \<open>user_B\<close> are open,
  the recorder of all users runs and the task of \<open>user_B\<close> is not cancelled.  Afterwards the
  stream and output of \<open>user_B\<close> are closed, the recorder of all users is stopped and the task
  of \<open>user_B\<close> is cancelled, while the recorder of \<open>user_A\<close> itself is still running; and that
  whichever captures get through their cleanup while the recorder is stopped.
\<close>

theorem timeout_stops_other_users:
  "\<not> fd_closed (fds global_and_single 2)
   \<and> opened (outs global_and_single 2)
   \<and> running (recorders global_and_single 0)
   \<and> task_user (task_store global_and_single ! 0) = user_B
   \<and> \<not> task_cancelled (task_store global_and_single ! 0)
   \<and> fd_closed (fds (fst (kwai_run
         (Some (gui_timeout_callback \<lparr>cancel_in_time = True, finishing = fin\<rparr>)) user_A
         (Live ''a'') ((quiet_env 3)\<lparr>timer_fires := True\<rparr>) global_and_single)) 2)
   \<and> \<not> opened (outs (fst (kwai_run
         (Some (gui_timeout_callback \<lparr>cancel_in_time = True, finishing = fin\<rparr>)) user_A
         (Live ''a'') ((quiet_env 3)\<lparr>timer_fires := True\<rparr>) global_and_single)) 2)
   \<and> \<not> running (recorders (fst (kwai_run
         (Some (gui_timeout_callback \<lparr>cancel_in_time = True, finishing = fin\<rparr>)) user_A
         (Live ''a'') ((quiet_env 3)\<lparr>timer_fires := True\<rparr>) global_and_single)) 0)
   \<and> task_cancelled (task_store (fst (kwai_run
         (Some (gui_timeout_callback \<lparr>cancel_in_time = True, finishing = fin\<rparr>)) user_A
         (Live ''a'') ((quiet_env 3)\<lparr>timer_fires := True\<rparr>) global_and_single)) ! 0)
   \<and> running (recorders (fst (kwai_run
         (Some (gui_timeout_callback \<lparr>cancel_in_time = True, finishing = fin\<rparr>)) user_A
         (Live ''a'') ((quiet_env 3)\<lparr>timer_fires := True\<rparr>) global_and_single)) 2)"
proof -
  define sch where "sch = \<lparr>cancel_in_time = True, finishing = fin\<rparr>"
  define env where "env = (quiet_env 3)\<lparr>timer_fires := True\<rparr>"
  define W1 where "W1 = timer_fire 3 (timer_start 3 2 (capturing ''a'' env global_and_single))"
  define W2 where "W2 = W1\<lparr>fds := (fds W1)(3 := (fds W1 3)\<lparr>fd_closed := True\<rparr>)\<rparr>"
  define S where "S = stop sch 0 W2"
  define cb where "cb = Some (kwai_timeout_callback (Some (gui_timeout_callback sch))
      (user_id user_A))"
  define R where "R = fst (runner_run env 3
      (\<lambda>s. timeout_handler (Some (user_id user_A)) 3 cb (timer_fire 3 s))
      (timer_start 3 2 (capturing ''a'' env global_and_single)))"
  define final where "final = fst (kwai_run (Some (gui_timeout_callback sch)) user_A (Live ''a'')
         env global_and_single)"
  have env: "stream_ok env" "mkdir_raises env = None" "open_stream_result env = Inr 3"
    "output_open_raises env = None" "timer_fires env" "new_output env = 3" "new_timer env = 3"
    "others env = (\<lambda>w. w)" "run_raises env = None"
    by (simp_all add: env_def quiet_env_def)
  have armed: "timer_armed (record_timeout (user_duration user_A) (user_duration_unit user_A))"
    "the (record_timeout (user_duration user_A) (user_duration_unit user_A)) = 2"
    by (simp_all add: user_A_def record_timeout_def timer_armed_def truthy_int_def truthy_str_def)
  have guard: "\<not> registered [] global_and_single"
    by (simp add: registered_def global_and_single_state)
  have W1: "recording W1 = [(''b'', 2, 2), (''a'', 3, 3)]"
    "fds W1 2 = \<lparr>fd_closed = False, fd_close_raises = False\<rparr>"
    "fds W1 3 = \<lparr>fd_closed = False, fd_close_raises = False\<rparr>"
    "outs W1 2 = \<lparr>opened = True, closed_attr = None, out_close_raises = False\<rparr>"
    "gui W1 = gui global_and_single" "recorders W1 = recorders global_and_single"
    "task_store W1 = task_store global_and_single"
    by (simp_all add: W1_def timer_fire_def timer_start_def capturing_def env open_stream_def
        FileOutput_def output_open_def register_def global_and_single_state env_def quiet_env_def)
  have W2: "recording W2 = [(''b'', 2, 2), (''a'', 3, 3)]"
    "fds W2 2 = \<lparr>fd_closed = False, fd_close_raises = False\<rparr>"
    "outs W2 2 = \<lparr>opened = True, closed_attr = None, out_close_raises = False\<rparr>"
    "gui W2 = gui global_and_single" "recorders W2 = recorders global_and_single"
    "task_store W2 = task_store global_and_single"
    by (simp_all add: W2_def W1)
  have ar: "at_run (user_duration user_A) (user_duration_unit user_A) ''a'' env global_and_single
      = timer_start 3 2 (capturing ''a'' env global_and_single)"
    by (simp add: at_run_def Let_def armed env)
  have rr: "final = release True 3 3 ''a'' (timer_cancel 3 R)"
  proof -
    have "final = fst (run_record (Some (user_id user_A)) ''a'' (user_duration user_A)
        (user_duration_unit user_A) cb env global_and_single)"
      unfolding final_def cb_def by (rule kwai_run_live [OF guard]) simp
    also have "\<dots> = release True 3 3 ''a'' (timer_cancel 3 R)"
      by (simp add: run_record_opened [OF env(1-4)] env armed ar R_def)
    finally show ?thesis .
  qed
  have th: "timeout_handler (Some (user_id user_A)) 3 cb W1 =
      gui_timeout_callback sch (user_id user_A) W2"
    unfolding W2_def cb_def by (rule timeout_handler_gui) (simp_all add: W1)
  have X: "recorders R = recorders (gui_timeout_callback sch (user_id user_A) W2)"
    "task_store R = task_store (gui_timeout_callback sch (user_id user_A) W2)"
    "outs R = outs (gui_timeout_callback sch (user_id user_A) W2)"
    "\<And>g. fd_closed (fds (gui_timeout_callback sch (user_id user_A) W2) g) \<Longrightarrow> fd_closed (fds R g)"
    unfolding R_def
    using runner_run_frame(1,2,4,8) [where env = env and f = 3
        and th = "\<lambda>s. timeout_handler (Some (user_id user_A)) 3 cb (timer_fire 3 s)"
        and w = "timer_start 3 2 (capturing ''a'' env global_and_single)"]
    by (simp_all add: env W1_def [symmetric] th)
  have run0: "running (recorders W2 0)" by (simp add: W2 global_and_single_state)
  note st = stop_when_running [OF run0, where sch = sch, folded S_def]
  have g: "gui_recorder (gui W2) = Some 0" by (simp add: W2 global_and_single_state)
  note cbs = gui_timeout_callback_stop [OF g, where p = sch and i = "user_id user_A",
      folded S_def]
  have c: "cancel_in_time sch" by (simp add: sch_def)
  have b: "fd_closed (fds S 2) \<and> \<not> opened (outs S 2)"
    using st(6) [of "(''b'', 2, 2)"] by (simp add: W2)
  have t: "task_cancelled (task_store S ! 0)"
    using st(7) [OF c, of 0] by (simp add: W2 global_and_single_state loop_is_running_def)
  have r2: "running (recorders S 2)" using st(4) [of 2] by (simp add: W2 global_and_single_state)
  have r0: "\<not> running (recorders S 0)" by (rule st(2))
  have fin: "fd_closed (fds final 2)" "\<not> opened (outs final 2)" "\<not> running (recorders final 0)"
    "task_cancelled (task_store final ! 0)" "running (recorders final 2)"
    unfolding rr using b t r2 r0
    by (simp_all add: release_frame release_mono timer_cancel_frame X cbs)
  show ?thesis
    using fin by (simp add: final_def env_def sch_def global_and_single_state)
qed

end
